theory Spec2Isabelle
  imports Complex_Main
begin

section \<open>The message reconciler of \<^verbatim>\<open>digitex_bot_framework/market.py\<close>\<close>

text \<open>
  The development embeds class \<^verbatim>\<open>Market\<close> of \<^verbatim>\<open>market.py\<close>: the dispatcher
  \<^verbatim>\<open>handle_message\<close>, its handlers, the order reconciler \<^verbatim>\<open>handle_order\<close>, the
  order-book merge \<^verbatim>\<open>populate_orderbook\<close> and the pending-event list.

  Conventions of the embedding.
  \<^item> Python \<^verbatim>\<open>Decimal\<close> values are rationals (\<^typ>\<open>rat\<close>): equal decimals are equal
    dictionary keys whatever their exponent, and the subtractions of the code are exact
    within the 28 digits of the default context.
  \<^item> A decoded protobuf message is a record holding the fields the handlers read; an
    absent scalar field reads as the protobuf default. The field \<^verbatim>\<open>status\<close> is optional:
    \<^verbatim>\<open>None\<close> stands for a message type without that field
    (\<^verbatim>\<open>hasattr(message, 'status')\<close> is false), \<^verbatim>\<open>Some st\<close> for the decoded status.
  \<^item> Objects that are shared and mutated (orders, currency pairs) live in a store indexed
    by reference; the registry and the pending events hold references.
  \<^item> An exception is a result \<^verbatim>\<open>Failed\<close> that carries the state reached when it was
    raised, since Python keeps every mutation made before the raise.
\<close>

subsection \<open>Enumerations and errors\<close>

text \<open>
  Modelled from the spec: \<^verbatim>\<open>enums.py\<close> is not among the sources. The spec names the live
  statuses ACCEPTED and PARTIAL and the terminal ones "filled, canceled, rejected, etc.";
  \<^verbatim>\<open>OTHER_STATUS\<close> stands for the remaining members.
\<close>

datatype OrderStatus =
  ACCEPTED | PARTIAL | FILLED | CANCELED | REJECTED | PENDING | OTHER_STATUS nat

datatype error = AttributeError | ValueError | TypeError

subsection \<open>Inbound messages\<close>

text \<open>The fields \<^verbatim>\<open>handle_order\<close> and \<^verbatim>\<open>create_order_from_message\<close> read.\<close>

record order_msg =
  orig_client_id :: string
  price :: rat
  quantity :: rat
  side :: nat
  order_type :: nat
  duration :: nat
  orig_quantity :: rat
  status :: "OrderStatus option"

record OrderBookEntry =
  price :: rat
  quantity :: rat

text \<open>
  The body of a \<^verbatim>\<open>kontent\<close> alternative: the order fields above, the account, position,
  margin, price and last-trade fields, the embedded order records and the depth entries.
\<close>

record msg = order_msg +
  dropped_quantity :: rat
  trader_balance :: rat
  upnl :: rat
  pnl :: rat
  position_contracts :: rat
  position_volume :: rat
  position_liquidation_volume :: rat
  position_bankruptcy_volume :: rat
  position_type :: nat
  position_margin :: rat
  order_margin :: rat
  buy_order_margin :: rat
  sell_order_margin :: rat
  leverage :: nat
  mark_price :: rat
  sell_price :: rat
  buy_price :: rat
  unreliable :: nat
  currency_pair_id :: nat
  last_trade_price :: rat
  last_trade_quantity :: rat
  last_trade_timestamp :: nat
  orders :: "order_msg list"
  bids :: "OrderBookEntry list"
  asks :: "OrderBookEntry list"
  bid_updates :: "OrderBookEntry list"
  ask_updates :: "OrderBookEntry list"

text \<open>\<^verbatim>\<open>message.WhichOneof('kontent')\<close> with the selected body.\<close>

datatype kontent =
    trader_status_msg msg
  | trader_balance_msg msg
  | exchange_rate_msg msg
  | order_book_msg msg
  | order_book_updated_msg msg
  | order_status_msg msg
  | order_filled_msg msg
  | order_canceled_msg msg
  | leverage_msg msg
  | unhandled

record envelope =
  client_id :: string
  error_code :: nat
  kontent :: kontent

subsection \<open>Entities\<close>

text \<open>
  Modelled from the spec: \<^verbatim>\<open>order.py\<close>, \<^verbatim>\<open>trader.py\<close>, \<^verbatim>\<open>trade.py\<close> and
  \<^verbatim>\<open>order_book.py\<close> are not among the sources. The records hold the attributes that
  \<^verbatim>\<open>market.py\<close> reads and writes; an attribute not yet assigned is \<^verbatim>\<open>None\<close>.
  The attribute \<^verbatim>\<open>id\<close> is named \<^verbatim>\<open>order_id\<close>, \<^verbatim>\<open>market_id\<close> here.
\<close>

record Order =
  order_id :: string
  price :: rat
  quantity :: rat
  side :: nat
  type :: nat
  duration :: nat
  status :: "OrderStatus option"
  error_code :: "nat option"

text \<open>
  Modelled from the spec: the order registry \<^verbatim>\<open>Orders\<close> is a mapping from id to order
  (here: to the reference of the order object) plus three margin figures.
\<close>

record Orders =
  by_id :: "string \<rightharpoonup> nat"
  margin :: "rat option"
  buy_margin :: "rat option"
  sell_margin :: "rat option"

record Position =
  contracts :: "rat option"
  volume :: "rat option"
  liquidation_volume :: "rat option"
  bankruptcy_volume :: "rat option"
  type :: "nat option"
  margin :: "rat option"

record Trader =
  balance :: "rat option"
  upnl :: "rat option"
  pnl :: "rat option"
  leverage :: "nat option"

record Trade =
  price :: rat
  quantity :: rat
  time :: nat

record OrderBook =
  bids :: "(rat \<rightharpoonup> OrderBookEntry) option"
  asks :: "(rat \<rightharpoonup> OrderBookEntry) option"

text \<open>
  \<^verbatim>\<open>CurrencyPair\<close> of \<^verbatim>\<open>currency_pair.py\<close>; the attribute \<^verbatim>\<open>id\<close> is named
  \<^verbatim>\<open>pair_id\<close>.
\<close>

record CurrencyPair =
  pair_id :: nat
  code :: string
  scale :: nat
  mark_price :: "rat option"
  sell_price :: "rat option"
  buy_price :: "rat option"
  unreliable :: "bool option"

text \<open>
  Modelled from the spec: the bot is a collaborator outside the sources. Its table
  \<^verbatim>\<open>currency_pairs\<close> maps the id of a tracked pair to the reference of the currency-pair
  object; its client receives the snapshot requests.
\<close>

record Bot =
  currency_pairs :: "nat \<rightharpoonup> nat"

text \<open>
  A pending event is a bound method; two bound methods are equal when they are the same
  method of the same object. The trader, its position, its registry, the order book and
  the last trade are single objects of a market; orders and currency pairs are identified
  by their reference.
\<close>

datatype event =
    CurrencyPair_on_update nat
  | Order_on_update nat
  | Trader_on_update
  | Position_on_update
  | Orders_on_margins_update
  | Trade_on_update
  | OrderBook_on_update

text \<open>
  What a callback returns: nothing, a coroutine, or anything else. Callbacks are observers;
  their own effects on the market are outside this model.
\<close>

datatype event_result = Returns_None | Returns_coroutine | Returns_other

text \<open>What \<^verbatim>\<open>asyncio.create_task\<close> was given.\<close>

datatype task = Callback_coroutine event | Order_book_request nat

text \<open>
  The market with the objects it reaches. \<^verbatim>\<open>trader_position\<close> and \<^verbatim>\<open>trader_orders\<close>
  are \<^verbatim>\<open>self.trader.position\<close> and \<^verbatim>\<open>self.trader.orders\<close>; \<^verbatim>\<open>currency_pair\<close> is the
  reference of the market's pair. \<^verbatim>\<open>order_objs\<close> holds the order objects created so far
  (references below \<^verbatim>\<open>next_ref\<close>), \<^verbatim>\<open>pair_objs\<close> the currency-pair objects.
  \<^verbatim>\<open>called\<close> and \<^verbatim>\<open>tasks\<close> record, in order, the callbacks invoked and the tasks
  created. The attributes \<^verbatim>\<open>name\<close>, \<^verbatim>\<open>code\<close>, \<^verbatim>\<open>tick\<close> and \<^verbatim>\<open>order_type\<close> are
  never written by the handlers and are left out, as is \<^verbatim>\<open>rounded_spot_price\<close>, which
  only reads.
\<close>

record Market =
  market_id :: nat
  trader :: Trader
  trader_position :: Position
  trader_orders :: Orders
  order_book :: OrderBook
  bot :: "Bot option"
  currency_pair :: nat
  last_trade :: "Trade option"
  scheduled_events :: "event list"
  order_objs :: "nat \<Rightarrow> Order"
  next_ref :: nat
  pair_objs :: "nat \<Rightarrow> CurrencyPair"
  called :: "event list"
  tasks :: "task list"

datatype outcome = Done Market | Failed error Market

subsection \<open>The pending-event list\<close>

text \<open>\<^verbatim>\<open>schedule_event\<close>: append unless already pending.\<close>

definition schedule_event :: "event \<Rightarrow> Market \<Rightarrow> Market" where
  "schedule_event ev s =
     (if ev \<notin> set (scheduled_events s)
      then s\<lparr>scheduled_events := scheduled_events s @ [ev]\<rparr>
      else s)"

text \<open>
  \<^verbatim>\<open>emit_event\<close>: call the callback (\<open>cb\<close> gives what each callback returns);
  \<^verbatim>\<open>None\<close> returns, a coroutine becomes a task, anything else raises \<^verbatim>\<open>TypeError\<close>.
\<close>

definition emit_event :: "(event \<Rightarrow> event_result) \<Rightarrow> event \<Rightarrow> Market \<Rightarrow> outcome" where
  "emit_event cb ev s =
     (let s1 = s\<lparr>called := called s @ [ev]\<rparr> in
      case cb ev of
        Returns_None \<Rightarrow> Done s1
      | Returns_coroutine \<Rightarrow> Done (s1\<lparr>tasks := tasks s1 @ [Callback_coroutine ev]\<rparr>)
      | Returns_other \<Rightarrow> Failed TypeError s1)"

text \<open>The loop \<^verbatim>\<open>for event in self.scheduled_events: self.emit_event(event)\<close>.\<close>

fun emit_events :: "(event \<Rightarrow> event_result) \<Rightarrow> event list \<Rightarrow> Market \<Rightarrow> outcome" where
  "emit_events cb [] s = Done s"
| "emit_events cb (ev # evs) s =
     (case emit_event cb ev s of
        Failed e s' \<Rightarrow> Failed e s'
      | Done s' \<Rightarrow> emit_events cb evs s')"

subsection \<open>Field handlers\<close>

definition handle_mark_price :: "msg \<Rightarrow> Market \<Rightarrow> Market" where
  "handle_mark_price message s =
     schedule_event (CurrencyPair_on_update (currency_pair s))
       (s\<lparr>pair_objs := (pair_objs s)
            (currency_pair s := (pair_objs s (currency_pair s))
               \<lparr>CurrencyPair.mark_price := Some (msg.mark_price message)\<rparr>)\<rparr>)"

definition handle_last_trade :: "msg \<Rightarrow> Market \<Rightarrow> Market" where
  "handle_last_trade message s =
     schedule_event Trade_on_update
       (s\<lparr>last_trade := Some
            \<lparr>Trade.price = last_trade_price message,
             Trade.quantity = last_trade_quantity message,
             Trade.time = last_trade_timestamp message\<rparr>\<rparr>)"

definition handle_position :: "msg \<Rightarrow> Market \<Rightarrow> Market" where
  "handle_position message s =
     schedule_event Position_on_update
       (s\<lparr>trader_position := (trader_position s)
            \<lparr>contracts := Some (position_contracts message),
             volume := Some (position_volume message),
             liquidation_volume := Some (position_liquidation_volume message),
             bankruptcy_volume := Some (position_bankruptcy_volume message),
             Position.type := Some (position_type message),
             Position.margin := Some (position_margin message)\<rparr>\<rparr>)"

definition handle_order_margin :: "msg \<Rightarrow> Market \<Rightarrow> Market" where
  "handle_order_margin message s =
     schedule_event Orders_on_margins_update
       (s\<lparr>trader_orders := (trader_orders s)
            \<lparr>Orders.margin := Some (order_margin message),
             buy_margin := Some (buy_order_margin message),
             sell_margin := Some (sell_order_margin message)\<rparr>\<rparr>)"

definition handle_leverage :: "msg \<Rightarrow> Market \<Rightarrow> Market" where
  "handle_leverage message s =
     (if msg.leverage message = 0 then s
      else schedule_event Trader_on_update
             (s\<lparr>trader := (trader s)\<lparr>Trader.leverage := Some (msg.leverage message)\<rparr>\<rparr>))"

definition handle_balance :: "msg \<Rightarrow> Market \<Rightarrow> Market" where
  "handle_balance message s =
     schedule_event Trader_on_update
       (s\<lparr>trader := (trader s)
            \<lparr>balance := Some (trader_balance message),
             Trader.upnl := Some (msg.upnl message),
             Trader.pnl := Some (msg.pnl message)\<rparr>\<rparr>)"

subsection \<open>The order reconciler\<close>

text \<open>\<^verbatim>\<open>uuid.UUID(bytes=b)\<close> raises \<^verbatim>\<open>ValueError\<close> unless \<open>b\<close> has 16 bytes.\<close>

definition UUID :: "string \<Rightarrow> error + string" where
  "UUID b = (if length b = 16 then Inr b else Inl ValueError)"

text \<open>
  Modelled from the spec: the methods of the absent class \<^verbatim>\<open>Orders\<close>, a mapping keyed
  by the order's id.
\<close>

definition look_up_by_id :: "Orders \<Rightarrow> string \<Rightarrow> nat option" where
  "look_up_by_id os i = by_id os i"

definition add :: "nat \<Rightarrow> Market \<Rightarrow> Market" where
  "add r s = s\<lparr>trader_orders := (trader_orders s)
     \<lparr>by_id := (by_id (trader_orders s))(order_id (order_objs s r) \<mapsto> r)\<rparr>\<rparr>"

definition remove :: "nat \<Rightarrow> Market \<Rightarrow> Market" where
  "remove r s = s\<lparr>trader_orders := (trader_orders s)
     \<lparr>by_id := (by_id (trader_orders s))(order_id (order_objs s r) := None)\<rparr>\<rparr>"

text \<open>
  \<^verbatim>\<open>create_order_from_message\<close>: a new order object from the message; the constructor
  leaves status and error code unset.
\<close>

definition create_order_from_message :: "'a order_msg_scheme \<Rightarrow> string \<Rightarrow> Order" where
  "create_order_from_message message i =
     \<lparr>order_id = i,
      Order.price = order_msg.price message,
      Order.quantity = order_msg.quantity message,
      Order.side = order_msg.side message,
      Order.type = order_type message,
      Order.duration = order_msg.duration message,
      Order.status = None,
      Order.error_code = None\<rparr>"

text \<open>Allocation of an order object, and assignment to one attribute of an order.\<close>

definition new_order :: "Order \<Rightarrow> Market \<Rightarrow> nat \<times> Market" where
  "new_order ord s =
     (next_ref s, s\<lparr>order_objs := (order_objs s)(next_ref s := ord), next_ref := Suc (next_ref s)\<rparr>)"

definition set_status :: "nat \<Rightarrow> OrderStatus \<Rightarrow> Market \<Rightarrow> Market" where
  "set_status r st s =
     s\<lparr>order_objs := (order_objs s)(r := (order_objs s r)\<lparr>Order.status := Some st\<rparr>)\<rparr>"

definition set_error_code :: "nat \<Rightarrow> nat \<Rightarrow> Market \<Rightarrow> Market" where
  "set_error_code r c s =
     s\<lparr>order_objs := (order_objs s)(r := (order_objs s r)\<lparr>Order.error_code := Some c\<rparr>)\<rparr>"

definition set_quantity :: "nat \<Rightarrow> rat \<Rightarrow> Market \<Rightarrow> Market" where
  "set_quantity r q s =
     s\<lparr>order_objs := (order_objs s)(r := (order_objs s r)\<lparr>Order.quantity := q\<rparr>)\<rparr>"

text \<open>
  Lines 104 to 107 of \<^verbatim>\<open>handle_order\<close>: the inner client id when it is not empty, the
  envelope's otherwise; an absent envelope has no \<^verbatim>\<open>client_id\<close>.
\<close>

definition resolve_id :: "'a order_msg_scheme \<Rightarrow> envelope option \<Rightarrow> error + string" where
  "resolve_id message outer_message =
     (if orig_client_id message \<noteq> [] then UUID (orig_client_id message)
      else case outer_message of
             None \<Rightarrow> Inl AttributeError
           | Some outer \<Rightarrow> UUID (client_id outer))"

definition statuses_to_keep :: "OrderStatus option set" where
  "statuses_to_keep = {Some ACCEPTED, Some PARTIAL}"

text \<open>
  Lines 113 to 121: an explicit status of the message, else the forced status, else, for
  an order not seen before, the inference from the quantities.
\<close>

definition determine_status ::
  "'a order_msg_scheme \<Rightarrow> OrderStatus option \<Rightarrow> bool \<Rightarrow> nat \<Rightarrow> Market \<Rightarrow> Market" where
  "determine_status message forced_status have_seen_this_order_before r s =
     (case order_msg.status message of
        Some st \<Rightarrow> set_status r st s
      | None \<Rightarrow>
         (case forced_status of
            Some st \<Rightarrow> set_status r st s
          | None \<Rightarrow>
             if \<not> have_seen_this_order_before then
               (if orig_quantity message \<noteq> Order.quantity (order_objs s r)
                then set_status r PARTIAL s
                else set_status r ACCEPTED s)
             else s))"

text \<open>Lines 123 and 124: a nonzero error code of a present envelope goes to the order.\<close>

definition attach_error_code :: "envelope option \<Rightarrow> nat \<Rightarrow> Market \<Rightarrow> Market" where
  "attach_error_code outer_message r s =
     (case outer_message of
        None \<Rightarrow> s
      | Some outer \<Rightarrow>
         if envelope.error_code outer \<noteq> 0
         then set_error_code r (envelope.error_code outer) s
         else s)"

text \<open>Lines 126 to 130: removal of a known order that is no longer live, insertion of a new live one.\<close>

definition update_membership :: "bool \<Rightarrow> nat \<Rightarrow> Market \<Rightarrow> Market" where
  "update_membership have_seen_this_order_before r s =
     (if have_seen_this_order_before \<and> Order.status (order_objs s r) \<notin> statuses_to_keep
      then remove r s
      else if \<not> have_seen_this_order_before \<and> Order.status (order_objs s r) \<in> statuses_to_keep
      then add r s
      else s)"

text \<open>
  \<^verbatim>\<open>handle_order\<close> returns the reference of the order and whether the registry knew it.
  It raises only while resolving the id, before any mutation.
\<close>

definition handle_order ::
  "'a order_msg_scheme \<Rightarrow> envelope option \<Rightarrow> OrderStatus option \<Rightarrow> Market
     \<Rightarrow> error + (nat \<times> bool \<times> Market)" where
  "handle_order message outer_message forced_status s =
     (case resolve_id message outer_message of
        Inl e \<Rightarrow> Inl e
      | Inr i \<Rightarrow>
         (let found = look_up_by_id (trader_orders s) i;
              have_seen_this_order_before = (found \<noteq> None);
              (r, s1) = (case found of
                           Some r \<Rightarrow> (r, s)
                         | None \<Rightarrow> new_order (create_order_from_message message i) s);
              s2 = determine_status message forced_status have_seen_this_order_before r s1;
              s3 = attach_error_code outer_message r s2;
              s4 = update_membership have_seen_this_order_before r s3
          in Inr (r, have_seen_this_order_before, s4)))"

subsection \<open>The order-book merge\<close>

text \<open>\<^verbatim>\<open>populate_orderbook\<close>, one entry and the loop over the entries.\<close>

definition populate_entry ::
  "(rat \<rightharpoonup> OrderBookEntry) \<Rightarrow> OrderBookEntry \<Rightarrow> (rat \<rightharpoonup> OrderBookEntry)" where
  "populate_entry target entry =
     (if OrderBookEntry.quantity entry = 0 \<and> OrderBookEntry.price entry \<in> dom target
      then target(OrderBookEntry.price entry := None)
      else target(OrderBookEntry.price entry \<mapsto> entry))"

fun populate_orderbook ::
  "(rat \<rightharpoonup> OrderBookEntry) \<Rightarrow> OrderBookEntry list \<Rightarrow> (rat \<rightharpoonup> OrderBookEntry)" where
  "populate_orderbook target [] = target"
| "populate_orderbook target (proto_entry # source) =
     populate_orderbook (populate_entry target proto_entry) source"

text \<open>
  The same call on a side that may still be \<^verbatim>\<open>None\<close>: the loop body then raises
  \<^verbatim>\<open>TypeError\<close> at the first entry, and an empty source touches nothing.
\<close>

definition populate_side ::
  "(rat \<rightharpoonup> OrderBookEntry) option \<Rightarrow> OrderBookEntry list
     \<Rightarrow> error + (rat \<rightharpoonup> OrderBookEntry) option" where
  "populate_side target source =
     (case target of
        Some t \<Rightarrow> Inr (Some (populate_orderbook t source))
      | None \<Rightarrow> if source = [] then Inr None else Inl TypeError)"

subsection \<open>Message handlers\<close>

text \<open>
  The loop \<^verbatim>\<open>for order_msg in message.orders\<close> of the trader-status handler (no
  envelope, no forced status) and of the cancellation handler (envelope and forced
  status): reconcile, then schedule the order's \<^verbatim>\<open>on_update\<close>.
\<close>

fun handle_orders ::
  "envelope option \<Rightarrow> OrderStatus option \<Rightarrow> order_msg list \<Rightarrow> Market \<Rightarrow> outcome" where
  "handle_orders outer_message forced_status [] s = Done s"
| "handle_orders outer_message forced_status (order_message # rest) s =
     (case handle_order order_message outer_message forced_status s of
        Inl e \<Rightarrow> Failed e s
      | Inr (r, have_seen_this_order_before, s') \<Rightarrow>
          handle_orders outer_message forced_status rest
            (schedule_event (Order_on_update r) s'))"

definition handle_order_status_msg :: "msg \<Rightarrow> envelope \<Rightarrow> Market \<Rightarrow> outcome" where
  "handle_order_status_msg message outer_message s =
     (let s1 = (if envelope.error_code outer_message = 0
                then handle_order_margin message
                       (handle_position message (handle_balance message s))
                else s)
      in case handle_order message (Some outer_message) None s1 of
           Inl e \<Rightarrow> Failed e s1
         | Inr (r, have_seen_this_order_before, s2) \<Rightarrow>
             Done (schedule_event (Order_on_update r) s2))"

definition handle_order_filled_message :: "msg \<Rightarrow> envelope \<Rightarrow> Market \<Rightarrow> outcome" where
  "handle_order_filled_message message outer_message s =
     (let s1 = handle_order_margin message
                 (handle_balance message (handle_position message s))
      in case handle_order message (Some outer_message) None s1 of
           Inl e \<Rightarrow> Failed e s1
         | Inr (r, have_seen_this_order_before, s2) \<Rightarrow>
             (let s3 = set_quantity r (orig_quantity message) s2;
                  s4 = set_quantity r
                         (Order.quantity (order_objs s3 r) - order_msg.quantity message) s3;
                  s5 = set_quantity r
                         (Order.quantity (order_objs s4 r) - dropped_quantity message) s4
              in Done (schedule_event (Order_on_update r) s5)))"

definition handle_order_canceled_msg :: "msg \<Rightarrow> envelope \<Rightarrow> Market \<Rightarrow> outcome" where
  "handle_order_canceled_msg message outer_message s =
     (let s1 = handle_balance message
                 (handle_mark_price message (handle_order_margin message s));
          s2 = schedule_event Position_on_update
                 (s1\<lparr>trader_position := (trader_position s1)
                       \<lparr>Position.margin := Some (position_margin message)\<rparr>\<rparr>)
      in case order_msg.status message of
           None \<Rightarrow> Failed AttributeError s2
         | Some st \<Rightarrow> handle_orders (Some outer_message) (Some st) (orders message) s2)"

definition handle_leverage_msg :: "msg \<Rightarrow> envelope \<Rightarrow> Market \<Rightarrow> Market" where
  "handle_leverage_msg message outer_message s =
     (let s1 = handle_leverage message s
      in if envelope.error_code outer_message = 0
         then handle_last_trade message
                (handle_order_margin message
                   (handle_position message (handle_balance message s1)))
         else s1)"

text \<open>
  The snapshot handler. \<^verbatim>\<open>asks.clear()\<close> on a side that is \<^verbatim>\<open>None\<close> while the bids
  exist raises \<^verbatim>\<open>AttributeError\<close>, after the bids were cleared.
\<close>

definition handle_order_book_msg :: "msg \<Rightarrow> Market \<Rightarrow> outcome" where
  "handle_order_book_msg message s =
     (if OrderBook.bids (order_book s) \<noteq> None \<and> OrderBook.asks (order_book s) = None
      then Failed AttributeError
             (s\<lparr>order_book := (order_book s)\<lparr>OrderBook.bids := Some Map.empty\<rparr>\<rparr>)
      else
        (let s1 = s\<lparr>order_book :=
                      \<lparr>OrderBook.bids = Some (populate_orderbook Map.empty (msg.bids message)),
                       OrderBook.asks = Some (populate_orderbook Map.empty (msg.asks message))\<rparr>\<rparr>
         in Done (schedule_event OrderBook_on_update
                    (handle_mark_price message (handle_last_trade message s1)))))"

text \<open>
  The incremental handler. Without a snapshot it creates the task
  \<^verbatim>\<open>self.bot.client.order_book_request(market_id=self.id)\<close>; a market whose \<^verbatim>\<open>bot\<close> is
  still \<^verbatim>\<open>None\<close> raises \<^verbatim>\<open>AttributeError\<close> there.
\<close>

definition handle_order_book_updated_msg :: "msg \<Rightarrow> Market \<Rightarrow> outcome" where
  "handle_order_book_updated_msg message s =
     (case OrderBook.bids (order_book s) of
        Some b \<Rightarrow>
          (let s1 = s\<lparr>order_book := (order_book s)
                        \<lparr>OrderBook.bids := Some (populate_orderbook b (bid_updates message))\<rparr>\<rparr>
           in case populate_side (OrderBook.asks (order_book s1)) (ask_updates message) of
                Inl e \<Rightarrow> Failed e s1
              | Inr a \<Rightarrow>
                  Done (handle_last_trade message
                          (handle_last_trade message
                             (schedule_event OrderBook_on_update
                                (s1\<lparr>order_book := (order_book s1)\<lparr>OrderBook.asks := a\<rparr>\<rparr>)))))
      | None \<Rightarrow>
          (case bot s of
             None \<Rightarrow> Failed AttributeError s
           | Some b \<Rightarrow>
               Done (handle_last_trade message
                       (handle_last_trade message
                          (s\<lparr>tasks := tasks s @ [Order_book_request (market_id s)]\<rparr>)))))"

definition handle_exchange_rate_msg :: "msg \<Rightarrow> Market \<Rightarrow> outcome" where
  "handle_exchange_rate_msg message s =
     (case bot s of
        None \<Rightarrow> Failed AttributeError s
      | Some b \<Rightarrow>
          (case currency_pairs b (currency_pair_id message) of
             None \<Rightarrow> Done s
           | Some cp \<Rightarrow>
               Done (schedule_event (CurrencyPair_on_update cp)
                       (s\<lparr>pair_objs := (pair_objs s)
                            (cp := (pair_objs s cp)
                               \<lparr>CurrencyPair.mark_price := Some (msg.mark_price message),
                                CurrencyPair.sell_price := Some (msg.sell_price message),
                                CurrencyPair.buy_price := Some (msg.buy_price message),
                                CurrencyPair.unreliable := Some (msg.unreliable message \<noteq> 0)\<rparr>)\<rparr>))))"

definition handle_trader_status_msg :: "msg \<Rightarrow> Market \<Rightarrow> outcome" where
  "handle_trader_status_msg message s =
     handle_orders None None (orders message)
       (handle_leverage message
          (handle_position message
             (handle_order_margin message
                (handle_last_trade message
                   (handle_mark_price message (handle_balance message s))))))"

definition handle_trader_balance_msg :: "msg \<Rightarrow> Market \<Rightarrow> Market" where
  "handle_trader_balance_msg message s =
     handle_position message
       (handle_order_margin message
          (handle_last_trade message (handle_balance message s)))"

subsection \<open>The dispatcher\<close>

text \<open>
  The \<^verbatim>\<open>if\<close>/\<^verbatim>\<open>elif\<close> chain of \<^verbatim>\<open>handle_message\<close>. Both \<^verbatim>\<open>order_status_msg\<close> and
  \<^verbatim>\<open>order_filled_msg\<close> go to \<^verbatim>\<open>handle_order_status_msg\<close> (lines 72 to 75); no branch
  calls \<^verbatim>\<open>handle_order_filled_message\<close>.
\<close>

definition dispatch :: "envelope \<Rightarrow> Market \<Rightarrow> outcome" where
  "dispatch message s =
     (case kontent message of
        trader_status_msg m \<Rightarrow> handle_trader_status_msg m s
      | trader_balance_msg m \<Rightarrow> Done (handle_trader_balance_msg m s)
      | exchange_rate_msg m \<Rightarrow> handle_exchange_rate_msg m s
      | order_book_msg m \<Rightarrow> handle_order_book_msg m s
      | order_book_updated_msg m \<Rightarrow> handle_order_book_updated_msg m s
      | order_status_msg m \<Rightarrow> handle_order_status_msg m message s
      | order_filled_msg m \<Rightarrow> handle_order_status_msg m message s
      | order_canceled_msg m \<Rightarrow> handle_order_canceled_msg m message s
      | leverage_msg m \<Rightarrow> Done (handle_leverage_msg m message s)
      | unhandled \<Rightarrow> Done s)"

text \<open>
  \<^verbatim>\<open>handle_message\<close>: dispatch, call every pending event, clear the list. An exception
  of the dispatch or of a callback leaves before the clear.
\<close>

definition handle_message :: "(event \<Rightarrow> event_result) \<Rightarrow> envelope \<Rightarrow> Market \<Rightarrow> outcome" where
  "handle_message cb message s =
     (case dispatch message s of
        Failed e s' \<Rightarrow> Failed e s'
      | Done s1 \<Rightarrow>
          (case emit_events cb (scheduled_events s1) s1 of
             Failed e s' \<Rightarrow> Failed e s'
           | Done s2 \<Rightarrow> Done (s2\<lparr>scheduled_events := []\<rparr>)))"

subsection \<open>The initial market\<close>

text \<open>
  \<^verbatim>\<open>Market.__init__\<close>: an empty registry, no order book sides, no bot, no last trade,
  nothing pending. No order object exists yet; the store holds a blank order at every
  unused reference.
\<close>

definition blank_order :: Order where
  "blank_order =
     \<lparr>order_id = [], Order.price = 0, Order.quantity = 0, Order.side = 0, Order.type = 0,
      Order.duration = 0, Order.status = None, Order.error_code = None\<rparr>"

definition Market_init :: "nat \<Rightarrow> nat \<Rightarrow> (nat \<Rightarrow> CurrencyPair) \<Rightarrow> Market" where
  "Market_init i cp pairs =
     \<lparr>market_id = i,
      trader = \<lparr>balance = None, Trader.upnl = None, Trader.pnl = None, Trader.leverage = None\<rparr>,
      trader_position =
        \<lparr>contracts = None, volume = None, liquidation_volume = None,
         bankruptcy_volume = None, Position.type = None, Position.margin = None\<rparr>,
      trader_orders =
        \<lparr>by_id = Map.empty, Orders.margin = None, buy_margin = None, sell_margin = None\<rparr>,
      order_book = \<lparr>OrderBook.bids = None, OrderBook.asks = None\<rparr>,
      bot = None,
      currency_pair = cp,
      last_trade = None,
      scheduled_events = [],
      order_objs = (\<lambda>r. blank_order),
      next_ref = 0,
      pair_objs = pairs,
      called = [],
      tasks = []\<rparr>"

subsection \<open>Sequences of reconciliations and the registry invariant\<close>

text \<open>
  The registry holds exactly the live order objects, each under its own id: the id \<open>i\<close>
  maps to the reference \<open>r\<close> if and only if \<open>r\<close> is an order object created so far, its id
  is \<open>i\<close> and its status is ACCEPTED or PARTIAL.
\<close>

definition registry_invariant :: "Market \<Rightarrow> bool" where
  "registry_invariant s =
     (\<forall>i r. by_id (trader_orders s) i = Some r \<longleftrightarrow>
        (r < next_ref s \<and> order_id (order_objs s r) = i \<and>
         Order.status (order_objs s r) \<in> statuses_to_keep))"

text \<open>
  A sequence of calls of \<^verbatim>\<open>handle_order\<close>, each with its message, its envelope (or none)
  and its forced status (or none). A call that raises changes nothing, and the next
  message is processed.
\<close>

fun reconcile_all ::
  "('a order_msg_scheme \<times> envelope option \<times> OrderStatus option) list \<Rightarrow> Market \<Rightarrow> Market" where
  "reconcile_all [] s = s"
| "reconcile_all ((message, outer_message, forced_status) # rest) s =
     (case handle_order message outer_message forced_status s of
        Inl e \<Rightarrow> reconcile_all rest s
      | Inr (r, have_seen_this_order_before, s') \<Rightarrow> reconcile_all rest s')"

text \<open>
  The same message reconciled twice in a row: the order returned by the first call, as it
  is after that call, and the order returned by the second call.
\<close>

definition handle_order_twice ::
  "'a order_msg_scheme \<Rightarrow> envelope option \<Rightarrow> OrderStatus option \<Rightarrow> Market
     \<Rightarrow> error + (Order \<times> Order)" where
  "handle_order_twice message outer_message forced_status s =
     (case handle_order message outer_message forced_status s of
        Inl e \<Rightarrow> Inl e
      | Inr (r1, seen1, s1) \<Rightarrow>
         (case handle_order message outer_message forced_status s1 of
            Inl e \<Rightarrow> Inl e
          | Inr (r2, seen2, s2) \<Rightarrow> Inr (order_objs s1 r1, order_objs s2 r2)))"

text \<open>The state a call leaves, whether it returned or raised.\<close>

fun final :: "outcome \<Rightarrow> Market" where
  "final (Done s) = s"
| "final (Failed e s) = s"

subsection \<open>Concrete inputs\<close>

text \<open>A message with every field at its protobuf default, and an untouched currency pair.\<close>

definition blank_order_msg :: order_msg where
  "blank_order_msg =
     \<lparr>orig_client_id = [], order_msg.price = 0, order_msg.quantity = 0, order_msg.side = 0,
      order_type = 0, order_msg.duration = 0, orig_quantity = 0, order_msg.status = None\<rparr>"

definition blank_msg :: msg where
  "blank_msg =
     \<lparr>orig_client_id = [], order_msg.price = 0, order_msg.quantity = 0, order_msg.side = 0,
      order_type = 0, order_msg.duration = 0, orig_quantity = 0, order_msg.status = None,
      dropped_quantity = 0, trader_balance = 0, msg.upnl = 0, msg.pnl = 0,
      position_contracts = 0, position_volume = 0, position_liquidation_volume = 0,
      position_bankruptcy_volume = 0, position_type = 0, position_margin = 0,
      order_margin = 0, buy_order_margin = 0, sell_order_margin = 0, msg.leverage = 0,
      msg.mark_price = 0, msg.sell_price = 0, msg.buy_price = 0, msg.unreliable = 0,
      currency_pair_id = 0, last_trade_price = 0, last_trade_quantity = 0,
      last_trade_timestamp = 0, orders = [], msg.bids = [], msg.asks = [],
      bid_updates = [], ask_updates = []\<rparr>"

definition blank_pair :: CurrencyPair where
  "blank_pair =
     \<lparr>pair_id = 1, code = ''BTC/USD'', scale = 4, CurrencyPair.mark_price = None, CurrencyPair.sell_price = None,
      CurrencyPair.buy_price = None, CurrencyPair.unreliable = None\<rparr>"

definition fresh_market :: Market where
  "fresh_market = Market_init 1 0 (\<lambda>r. blank_pair)"

text \<open>
  A market that knows one order: id \<^verbatim>\<open>0123456789abcdef\<close>, price 100, quantity 10,
  status ACCEPTED, stored at reference 0.
\<close>

definition known_order :: Order where
  "known_order =
     \<lparr>order_id = ''0123456789abcdef'', Order.price = 100, Order.quantity = 10,
      Order.side = 0, Order.type = 0, Order.duration = 0, Order.status = Some ACCEPTED,
      Order.error_code = None\<rparr>"

definition known_market :: Market where
  "known_market =
     fresh_market
       \<lparr>trader_orders := (trader_orders fresh_market)
          \<lparr>by_id := [''0123456789abcdef'' \<mapsto> 0]\<rparr>,
        order_objs := (order_objs fresh_market)(0 := known_order),
        next_ref := 1\<rparr>"

text \<open>
  An embedded order record without a status field, for a new order of quantity 10 that
  reports an original quantity of 10, and an envelope of a cancellation.
\<close>

definition accepted_report :: order_msg where
  "accepted_report =
     blank_order_msg
       \<lparr>orig_client_id := ''0123456789abcdef'', order_msg.price := 100,
        order_msg.quantity := 10, orig_quantity := 10\<rparr>"

definition cancel_envelope :: envelope where
  "cancel_envelope =
     \<lparr>client_id = ''fedcba9876543210'', envelope.error_code = 0, kontent = unhandled\<rparr>"

text \<open>
  The same record reporting an original quantity of 12, and the market after its
  reconciliation in the fresh market.
\<close>

definition partial_report :: order_msg where
  "partial_report = accepted_report\<lparr>orig_quantity := 12\<rparr>"

definition partial_market :: Market where
  "partial_market =
     update_membership False 0
       (attach_error_code None 0
          (determine_status partial_report None False 0
             (snd (new_order (create_order_from_message partial_report ''0123456789abcdef'')
                     fresh_market))))"

text \<open>
  A trader-status message with two embedded order records: one for an order with another
  id, one whose \<^verbatim>\<open>orig_client_id\<close> is empty.
\<close>

definition other_report :: order_msg where
  "other_report = accepted_report\<lparr>orig_client_id := ''fedcba9876543210''\<rparr>"

definition anonymous_status :: msg where
  "anonymous_status = blank_msg\<lparr>orders := [other_report, blank_order_msg]\<rparr>"

text \<open>
  An order-status message that reports the known order as FILLED with nothing remaining,
  its envelope, and the market after its reconciliation in the market that knows the order.
\<close>

definition filled_report :: msg where
  "filled_report =
     blank_msg
       \<lparr>orig_client_id := ''0123456789abcdef'', order_msg.price := 100,
        order_msg.quantity := 0, orig_quantity := 10, order_msg.status := Some FILLED\<rparr>"

definition filled_envelope :: envelope where
  "filled_envelope =
     \<lparr>client_id = ''0123456789abcdef'', envelope.error_code = 0,
      kontent = order_status_msg filled_report\<rparr>"

definition filled_market :: Market where
  "filled_market =
     update_membership True 0
       (attach_error_code (Some filled_envelope) 0
          (determine_status filled_report None True 0 known_market))"

text \<open>
  A trader-balance message, and callbacks of which the registry's margin hook returns an
  unsupported value and the trader's hook returns a coroutine.
\<close>

definition balance_envelope :: envelope where
  "balance_envelope =
     \<lparr>client_id = [], envelope.error_code = 0, kontent = trader_balance_msg blank_msg\<rparr>"

definition position_hook_violates :: "event \<Rightarrow> event_result" where
  "position_hook_violates ev =
     (if ev = Orders_on_margins_update then Returns_other
      else if ev = Trader_on_update then Returns_coroutine
      else Returns_None)"

text \<open>
  A trader-status message with a leverage (so that both the balance and the leverage
  handler request the trader's hook) and one embedded order record.
\<close>

definition status_report :: msg where
  "status_report = blank_msg\<lparr>msg.leverage := 5, orders := [accepted_report]\<rparr>"

definition status_envelope :: envelope where
  "status_envelope =
     \<lparr>client_id = [], envelope.error_code = 0, kontent = trader_status_msg status_report\<rparr>"

text \<open>The tasks that are snapshot requests.\<close>

fun is_order_book_request :: "task \<Rightarrow> bool" where
  "is_order_book_request (Order_book_request i) = True"
| "is_order_book_request (Callback_coroutine ev) = False"

text \<open>
  An order-filled message for the known order of quantity 10: original quantity 10,
  remaining quantity 4, dropped quantity 1, status PARTIAL; and its envelope.
\<close>

definition fill_report :: msg where
  "fill_report =
     blank_msg
       \<lparr>orig_client_id := ''0123456789abcdef'', order_msg.price := 100,
        order_msg.quantity := 4, orig_quantity := 10, order_msg.status := Some PARTIAL,
        dropped_quantity := 1\<rparr>"

definition fill_envelope :: envelope where
  "fill_envelope =
     \<lparr>client_id = ''0123456789abcdef'', envelope.error_code = 0,
      kontent = order_filled_msg fill_report\<rparr>"

text \<open>
  A market with a bot but no order-book snapshot yet, a market with a snapshot, and an
  incremental update with one bid, one ask and a last trade.
\<close>

definition attached_market :: Market where
  "attached_market = fresh_market\<lparr>bot := Some \<lparr>currency_pairs = Map.empty\<rparr>\<rparr>"

definition snapshot_market :: Market where
  "snapshot_market =
     attached_market
       \<lparr>order_book := \<lparr>OrderBook.bids = Some Map.empty, OrderBook.asks = Some Map.empty\<rparr>\<rparr>"

definition book_update :: msg where
  "book_update =
     blank_msg
       \<lparr>bid_updates := [\<lparr>OrderBookEntry.price = 99, OrderBookEntry.quantity = 3\<rparr>],
        ask_updates := [\<lparr>OrderBookEntry.price = 101, OrderBookEntry.quantity = 2\<rparr>],
        last_trade_price := 100, last_trade_quantity := 7, last_trade_timestamp := 42\<rparr>"

definition book_update_envelope :: envelope where
  "book_update_envelope =
     \<lparr>client_id = [], envelope.error_code = 0, kontent = order_book_updated_msg book_update\<rparr>"

section \<open>Properties\<close>

subsection \<open>The steps of the order reconciler\<close>

lemma handle_order_fails_iff:
  "handle_order m outer forced s = Inl e \<longleftrightarrow> resolve_id m outer = Inl e"
  by (auto simp: handle_order_def Let_def split: sum.splits prod.splits)

lemma handle_order_known:
  assumes "resolve_id m outer = Inr i" "by_id (trader_orders s) i = Some r"
  shows "handle_order m outer forced s =
     Inr (r, True,
          update_membership True r
            (attach_error_code outer r (determine_status m forced True r s)))"
  using assms by (simp add: handle_order_def look_up_by_id_def)

lemma handle_order_unknown:
  assumes "resolve_id m outer = Inr i" "by_id (trader_orders s) i = None"
  shows "handle_order m outer forced s =
     Inr (next_ref s, False,
          update_membership False (next_ref s)
            (attach_error_code outer (next_ref s)
               (determine_status m forced False (next_ref s)
                  (snd (new_order (create_order_from_message m i) s)))))"
  using assms by (simp add: handle_order_def look_up_by_id_def new_order_def)

lemma handle_order_resolves:
  assumes "handle_order m outer forced s = Inr (r, seen, s')"
  obtains i where "resolve_id m outer = Inr i"
  using assms by (auto simp: handle_order_def split: sum.splits)

lemma determine_status_frame:
  "trader_orders (determine_status m forced seen r s) = trader_orders s"
  "next_ref (determine_status m forced seen r s) = next_ref s"
  "r' \<noteq> r \<Longrightarrow> order_objs (determine_status m forced seen r s) r' = order_objs s r'"
  "order_id (order_objs (determine_status m forced seen r s) r') = order_id (order_objs s r')"
  "Order.quantity (order_objs (determine_status m forced seen r s) r') =
     Order.quantity (order_objs s r')"
  "Order.error_code (order_objs (determine_status m forced seen r s) r') =
     Order.error_code (order_objs s r')"
  by (simp_all add: determine_status_def set_status_def split: option.splits)

lemma determine_status_status:
  "Order.status (order_objs (determine_status m forced seen r s) r) =
     (case order_msg.status m of
        Some st \<Rightarrow> Some st
      | None \<Rightarrow>
         (case forced of
            Some st \<Rightarrow> Some st
          | None \<Rightarrow>
             if seen then Order.status (order_objs s r)
             else if orig_quantity m \<noteq> Order.quantity (order_objs s r) then Some PARTIAL
             else Some ACCEPTED))"
  by (simp add: determine_status_def set_status_def split: option.splits)

lemma attach_error_code_frame:
  "trader_orders (attach_error_code outer r s) = trader_orders s"
  "next_ref (attach_error_code outer r s) = next_ref s"
  "r' \<noteq> r \<Longrightarrow> order_objs (attach_error_code outer r s) r' = order_objs s r'"
  "order_id (order_objs (attach_error_code outer r s) r') = order_id (order_objs s r')"
  "Order.quantity (order_objs (attach_error_code outer r s) r') =
     Order.quantity (order_objs s r')"
  "Order.status (order_objs (attach_error_code outer r s) r') = Order.status (order_objs s r')"
  by (simp_all add: attach_error_code_def set_error_code_def split: option.splits)

lemma update_membership_frame:
  "order_objs (update_membership seen r s) = order_objs s"
  "next_ref (update_membership seen r s) = next_ref s"
  by (simp_all add: update_membership_def add_def remove_def)

lemma update_membership_by_id:
  "by_id (trader_orders (update_membership seen r s)) =
     (if seen \<and> Order.status (order_objs s r) \<notin> statuses_to_keep
      then (by_id (trader_orders s))(order_id (order_objs s r) := None)
      else if \<not> seen \<and> Order.status (order_objs s r) \<in> statuses_to_keep
      then (by_id (trader_orders s))(order_id (order_objs s r) \<mapsto> r)
      else by_id (trader_orders s))"
  by (simp add: update_membership_def add_def remove_def)

text \<open>What a successful call does to an order the registry did not know.\<close>

lemma handle_order_unknown_effect:
  assumes i: "resolve_id m outer = Inr i" and n: "by_id (trader_orders s) i = None"
    and h: "handle_order m outer forced s = Inr (r, seen, s')"
  shows "r = next_ref s" and "\<not> seen" and "next_ref s' = Suc (next_ref s)"
    and "\<And>r'. r' \<noteq> r \<Longrightarrow> order_objs s' r' = order_objs s r'"
    and "order_id (order_objs s' r) = i"
    and "by_id (trader_orders s') =
           (if Order.status (order_objs s' r) \<in> statuses_to_keep
            then (by_id (trader_orders s))(i \<mapsto> r) else by_id (trader_orders s))"
proof -
  let ?n = "next_ref s"
  from h handle_order_unknown [OF i n, of forced]
  have r: "r = ?n" and sn: "\<not> seen" and s': "s' = update_membership False ?n
            (attach_error_code outer ?n
               (determine_status m forced False ?n
                  (snd (new_order (create_order_from_message m i) s))))" by auto
  show "r = ?n" by (rule r)
  show "\<not> seen" by (rule sn)
  show "next_ref s' = Suc ?n"
    by (simp add: s' update_membership_frame attach_error_code_frame determine_status_frame
        new_order_def)
  show "\<And>r'. r' \<noteq> r \<Longrightarrow> order_objs s' r' = order_objs s r'"
    by (simp add: s' r update_membership_frame attach_error_code_frame determine_status_frame
        new_order_def)
  show "order_id (order_objs s' r) = i"
    by (simp add: s' r update_membership_frame attach_error_code_frame determine_status_frame
        new_order_def create_order_from_message_def)
  then show "by_id (trader_orders s') =
           (if Order.status (order_objs s' r) \<in> statuses_to_keep
            then (by_id (trader_orders s))(i \<mapsto> r) else by_id (trader_orders s))"
    by (simp add: s' r update_membership_by_id update_membership_frame attach_error_code_frame
        determine_status_frame new_order_def)
qed

text \<open>What a successful call does to an order the registry knew.\<close>

lemma handle_order_known_effect:
  assumes i: "resolve_id m outer = Inr i" and n: "by_id (trader_orders s) i = Some r0"
    and h: "handle_order m outer forced s = Inr (r, seen, s')"
  shows "r = r0" and "seen" and "next_ref s' = next_ref s"
    and "\<And>r'. r' \<noteq> r \<Longrightarrow> order_objs s' r' = order_objs s r'"
    and "order_id (order_objs s' r) = order_id (order_objs s r)"
    and "by_id (trader_orders s') =
           (if Order.status (order_objs s' r) \<in> statuses_to_keep
            then by_id (trader_orders s)
            else (by_id (trader_orders s))(order_id (order_objs s r) := None))"
proof -
  from h handle_order_known [OF i n, of forced]
  have r: "r = r0" and sn: "seen" and s': "s' = update_membership True r0
            (attach_error_code outer r0 (determine_status m forced True r0 s))" by auto
  show "r = r0" by (rule r)
  show "seen" by (rule sn)
  show "next_ref s' = next_ref s"
    by (simp add: s' update_membership_frame attach_error_code_frame determine_status_frame)
  show "\<And>r'. r' \<noteq> r \<Longrightarrow> order_objs s' r' = order_objs s r'"
    by (simp add: s' r update_membership_frame attach_error_code_frame determine_status_frame)
  show "order_id (order_objs s' r) = order_id (order_objs s r)"
    by (simp add: s' r update_membership_frame attach_error_code_frame determine_status_frame)
  show "by_id (trader_orders s') =
           (if Order.status (order_objs s' r) \<in> statuses_to_keep
            then by_id (trader_orders s)
            else (by_id (trader_orders s))(order_id (order_objs s r) := None))"
    by (simp add: s' r update_membership_by_id update_membership_frame attach_error_code_frame
        determine_status_frame)
qed

text \<open>One reconciliation keeps the registry invariant.\<close>

lemma handle_order_invariant:
  assumes inv: "registry_invariant s" and h: "handle_order m outer forced s = Inr (r, seen, s')"
  shows "registry_invariant s'"
proof -
  from h obtain i where i: "resolve_id m outer = Inr i" by (rule handle_order_resolves)
  have I: "\<And>j q. by_id (trader_orders s) j = Some q \<longleftrightarrow>
        (q < next_ref s \<and> order_id (order_objs s q) = j \<and>
         Order.status (order_objs s q) \<in> statuses_to_keep)"
    using inv by (simp add: registry_invariant_def)
  show ?thesis
  proof (cases "by_id (trader_orders s) i")
    case None
    note e = handle_order_unknown_effect [OF i None h]
    have fresh: "\<And>q. q < next_ref s \<Longrightarrow> order_id (order_objs s q) = i \<Longrightarrow>
        Order.status (order_objs s q) \<notin> statuses_to_keep"
      using I None by (metis option.distinct(1))
    show ?thesis
      unfolding registry_invariant_def
    proof (intro allI)
      fix j q
      show "by_id (trader_orders s') j = Some q \<longleftrightarrow>
        (q < next_ref s' \<and> order_id (order_objs s' q) = j \<and>
         Order.status (order_objs s' q) \<in> statuses_to_keep)"
      proof (cases "q = r")
        case True
        show ?thesis using e(1,3,5,6) I [of j r] True
          by (auto split: if_splits)
      next
        case False
        then have "order_objs s' q = order_objs s q" by (rule e(4))
        then show ?thesis using e(1,3,6) I [of j q] False fresh [of q]
          by (auto simp: less_Suc_eq split: if_splits)
      qed
    qed
  next
    case (Some r0)
    note e = handle_order_known_effect [OF i Some h]
    have r0: "r0 < next_ref s" "order_id (order_objs s r0) = i" using I Some by auto
    show ?thesis
      unfolding registry_invariant_def
    proof (intro allI)
      fix j q
      show "by_id (trader_orders s') j = Some q \<longleftrightarrow>
        (q < next_ref s' \<and> order_id (order_objs s' q) = j \<and>
         Order.status (order_objs s' q) \<in> statuses_to_keep)"
      proof (cases "q = r")
        case True
        show ?thesis using e(1,3,5,6) I [of j r] True r0 Some
          by (auto split: if_splits)
      next
        case False
        then have "order_objs s' q = order_objs s q" by (rule e(4))
        then show ?thesis using e(1,3,5,6) I [of j q] False r0 Some
          by (auto split: if_splits)
      qed
    qed
  qed
qed

lemma Market_init_invariant: "registry_invariant (Market_init i cp pairs)"
  by (simp add: registry_invariant_def Market_init_def)

lemma reconcile_all_invariant:
  "registry_invariant s \<Longrightarrow> registry_invariant (reconcile_all calls s)"
proof (induction calls arbitrary: s)
  case Nil
  then show ?case by simp
next
  case (Cons c calls)
  obtain m outer forced where c: "c = (m, outer, forced)" by (cases c) auto
  show ?case
  proof (cases "handle_order m outer forced s")
    case (Inl e)
    then show ?thesis using Cons c by simp
  next
    case (Inr res)
    obtain r seen s' where res: "res = (r, seen, s')" by (cases res) auto
    have "registry_invariant s'"
      using handle_order_invariant [OF Cons.prems] Inr res by simp
    then show ?thesis using Cons.IH Inr res c by simp
  qed
qed

subsection \<open>The registry invariant\<close>

text \<open>
  Claim C2. For every sequence of calls of \<^verbatim>\<open>handle_order\<close>, with or without a forced
  status, an order is in the registry if and only if its status is ACCEPTED or PARTIAL:
  the invariant holds for the market as \<^verbatim>\<open>__init__\<close> leaves it, it holds after any
  sequence of reconciliations from there, and every sequence keeps it from any market
  where it holds.
\<close>

theorem registry_invariant_all_sequences:
  "registry_invariant (Market_init i cp pairs) \<and>
   registry_invariant (reconcile_all calls (Market_init i cp pairs)) \<and>
   (registry_invariant s \<longrightarrow> registry_invariant (reconcile_all calls s))"
  by (simp add: Market_init_invariant reconcile_all_invariant)

text \<open>
  A new order is accepted and enters the registry; its cancellation, with the forced
  status CANCELED, takes it out again.
\<close>

theorem registry_invariant_all_sequences_witness:
  "registry_invariant fresh_market \<and>
   registry_invariant
     (reconcile_all [(accepted_report, None, None),
                     (accepted_report, Some cancel_envelope, Some CANCELED)] fresh_market) \<and>
   by_id (trader_orders (reconcile_all [(accepted_report, None, None)] fresh_market))
     ''0123456789abcdef'' = Some 0 \<and>
   Order.status (order_objs (reconcile_all [(accepted_report, None, None)] fresh_market) 0)
     = Some ACCEPTED \<and>
   by_id (trader_orders
     (reconcile_all [(accepted_report, None, None),
                     (accepted_report, Some cancel_envelope, Some CANCELED)] fresh_market))
     ''0123456789abcdef'' = None \<and>
   Order.status (order_objs
     (reconcile_all [(accepted_report, None, None),
                     (accepted_report, Some cancel_envelope, Some CANCELED)] fresh_market) 0)
     = Some CANCELED"
proof -
  have a: "by_id (trader_orders (reconcile_all [(accepted_report, None, None)] fresh_market))
     ''0123456789abcdef'' = Some 0" by code_simp
  have b: "Order.status (order_objs (reconcile_all [(accepted_report, None, None)] fresh_market) 0)
     = Some ACCEPTED" by code_simp
  have c: "by_id (trader_orders
     (reconcile_all [(accepted_report, None, None),
                     (accepted_report, Some cancel_envelope, Some CANCELED)] fresh_market))
     ''0123456789abcdef'' = None" by code_simp
  have d: "Order.status (order_objs
     (reconcile_all [(accepted_report, None, None),
                     (accepted_report, Some cancel_envelope, Some CANCELED)] fresh_market) 0)
     = Some CANCELED" by code_simp
  show ?thesis
    using registry_invariant_all_sequences
      [of 1 0 "\<lambda>r. blank_pair"
          "[(accepted_report, None, None),
            (accepted_report, Some cancel_envelope, Some CANCELED)]" fresh_market] a b c d
    by (simp add: fresh_market_def)
qed

subsection \<open>The order-book merge\<close>

text \<open>
  Claim C3, amended. For every side map and every entry list, the merge deletes the entry's
  price level when the entry's quantity is zero and the price is a key of the map, and
  otherwise stores the entry under its price. Consequently the entries \<open>(p, q1), (p, 0)\<close>
  leave level \<open>p\<close> absent when \<open>q1\<close> is not zero or \<open>p\<close> was absent before; and the single
  entry \<open>(p, 0)\<close> applied to a map without \<open>p\<close> stores a level of quantity zero at \<open>p\<close>.
\<close>

theorem populate_orderbook_merge:
  "populate_orderbook target (entry # source) =
     populate_orderbook
       (if OrderBookEntry.quantity entry = 0 \<and> OrderBookEntry.price entry \<in> dom target
        then target(OrderBookEntry.price entry := None)
        else target(OrderBookEntry.price entry \<mapsto> entry)) source
   \<and> (q1 \<noteq> 0 \<or> p \<notin> dom target \<longrightarrow>
        populate_orderbook target
          [\<lparr>OrderBookEntry.price = p, quantity = q1\<rparr>,
           \<lparr>OrderBookEntry.price = p, quantity = 0\<rparr>] p = None)
   \<and> (p \<notin> dom target \<longrightarrow>
        populate_orderbook target [\<lparr>OrderBookEntry.price = p, quantity = 0\<rparr>] =
          target(p \<mapsto> \<lparr>OrderBookEntry.price = p, quantity = 0\<rparr>))"
  by (simp add: populate_entry_def)

theorem populate_orderbook_merge_witness:
  "(5::rat) \<noteq> 0 \<and> (100::rat) \<notin> dom (Map.empty :: rat \<rightharpoonup> OrderBookEntry) \<and>
   populate_orderbook Map.empty
     [\<lparr>OrderBookEntry.price = 100, quantity = 5\<rparr>,
      \<lparr>OrderBookEntry.price = 100, quantity = 0\<rparr>] 100 = None \<and>
   populate_orderbook Map.empty [\<lparr>OrderBookEntry.price = 100, quantity = 0\<rparr>] 100 =
     Some \<lparr>OrderBookEntry.price = 100, quantity = 0\<rparr>"
  using populate_orderbook_merge
    [of Map.empty "\<lparr>OrderBookEntry.price = 100, quantity = 5\<rparr>" "[]" 5 100]
  by (simp add: populate_entry_def)

text \<open>
  The claim as stated fails: \<open>(100, 0)\<close> applied to the empty map is not a no-op, and
  \<open>(100, 0), (100, 0)\<close> applied to a map that has level 100 leaves a level 100.
\<close>

theorem populate_orderbook_noop_counterexample:
  "populate_orderbook Map.empty [\<lparr>OrderBookEntry.price = 100, quantity = 0\<rparr>] \<noteq> Map.empty
   \<and> populate_orderbook [100 \<mapsto> \<lparr>OrderBookEntry.price = 100, quantity = 7\<rparr>]
        [\<lparr>OrderBookEntry.price = 100, quantity = 0\<rparr>,
         \<lparr>OrderBookEntry.price = 100, quantity = 0\<rparr>] 100
       = Some \<lparr>OrderBookEntry.price = 100, quantity = 0\<rparr>"
  by (simp add: populate_entry_def)

subsection \<open>Further facts about one reconciliation\<close>

lemma set_status_same:
  "Order.status (order_objs s r) = Some st \<Longrightarrow> set_status r st s = s"
proof -
  assume a: "Order.status (order_objs s r) = Some st"
  have "(order_objs s r)\<lparr>Order.status := Some st\<rparr> = order_objs s r"
    using a by (cases "order_objs s r") simp
  then show ?thesis by (simp add: set_status_def)
qed

lemma set_error_code_same:
  "Order.error_code (order_objs s r) = Some c \<Longrightarrow> set_error_code r c s = s"
proof -
  assume a: "Order.error_code (order_objs s r) = Some c"
  have "(order_objs s r)\<lparr>Order.error_code := Some c\<rparr> = order_objs s r"
    using a by (cases "order_objs s r") simp
  then show ?thesis by (simp add: set_error_code_def)
qed

lemma attach_error_code_value:
  "Order.error_code (order_objs (attach_error_code outer r s) r) =
     (case outer of
        None \<Rightarrow> Order.error_code (order_objs s r)
      | Some om \<Rightarrow>
         if envelope.error_code om \<noteq> 0 then Some (envelope.error_code om)
         else Order.error_code (order_objs s r))"
  by (simp add: attach_error_code_def set_error_code_def split: option.splits)

text \<open>The status and the error code that a successful call leaves on the order.\<close>

lemma handle_order_status:
  assumes h: "handle_order m outer forced s = Inr (r, seen, s')"
  shows "Order.status (order_objs s' r) =
       (case order_msg.status m of
          Some st \<Rightarrow> Some st
        | None \<Rightarrow>
           (case forced of
              Some st \<Rightarrow> Some st
            | None \<Rightarrow>
               if seen then Order.status (order_objs s r)
               else if orig_quantity m = Order.quantity (order_objs s' r) then Some ACCEPTED
               else Some PARTIAL))"
proof -
  from h obtain i where i: "resolve_id m outer = Inr i" by (rule handle_order_resolves)
  show ?thesis
  proof (cases "by_id (trader_orders s) i")
    case None
    from h handle_order_unknown [OF i None, of forced]
    have r: "r = next_ref s" and sn: "\<not> seen" and s': "s' = update_membership False r
            (attach_error_code outer r
               (determine_status m forced False r
                  (snd (new_order (create_order_from_message m i) s))))" by auto
    have "Order.status (order_objs s' r) =
       (case order_msg.status m of
          Some st \<Rightarrow> Some st
        | None \<Rightarrow>
           (case forced of
              Some st \<Rightarrow> Some st
            | None \<Rightarrow>
               if orig_quantity m = Order.quantity (order_objs s' r) then Some ACCEPTED
               else Some PARTIAL))"
      unfolding s'
      by (simp add: update_membership_frame attach_error_code_frame determine_status_frame
          determine_status_status split: option.splits)
    then show ?thesis using sn by simp
  next
    case (Some r0)
    from h handle_order_known [OF i Some, of forced]
    have r: "r = r0" and sn: "seen" and s': "s' = update_membership True r
            (attach_error_code outer r (determine_status m forced True r s))" by auto
    have "Order.status (order_objs s' r) =
       (case order_msg.status m of
          Some st \<Rightarrow> Some st
        | None \<Rightarrow>
           (case forced of
              Some st \<Rightarrow> Some st
            | None \<Rightarrow> Order.status (order_objs s r)))"
      unfolding s'
      by (simp add: update_membership_frame attach_error_code_frame determine_status_frame
          determine_status_status split: option.splits)
    then show ?thesis using sn by simp
  qed
qed

lemma handle_order_seen:
  assumes "handle_order m outer forced s = Inr (r, seen, s')" "resolve_id m outer = Inr i"
  shows "seen = (by_id (trader_orders s) i \<noteq> None)"
  using assms by (auto simp: handle_order_def look_up_by_id_def Let_def split: prod.splits)

lemma handle_order_error_code:
  assumes h: "handle_order m outer forced s = Inr (r, seen, s')"
  shows "Order.error_code (order_objs s' r) =
     (case outer of
        None \<Rightarrow> (if seen then Order.error_code (order_objs s r) else None)
      | Some om \<Rightarrow>
         if envelope.error_code om \<noteq> 0 then Some (envelope.error_code om)
         else if seen then Order.error_code (order_objs s r) else None)"
proof -
  from h obtain i where i: "resolve_id m outer = Inr i" by (rule handle_order_resolves)
  show ?thesis
  proof (cases "by_id (trader_orders s) i")
    case None
    from h handle_order_unknown [OF i None, of forced]
    have r: "r = next_ref s" and sn: "\<not> seen" and s': "s' = update_membership False r
            (attach_error_code outer r
               (determine_status m forced False r
                  (snd (new_order (create_order_from_message m i) s))))" by auto
    show ?thesis unfolding s' using sn
      by (simp add: update_membership_frame attach_error_code_value determine_status_frame
          new_order_def create_order_from_message_def r split: option.splits)
  next
    case (Some r0)
    from h handle_order_known [OF i Some, of forced]
    have r: "r = r0" and sn: "seen" and s': "s' = update_membership True r
            (attach_error_code outer r (determine_status m forced True r s))" by auto
    show ?thesis unfolding s' using sn
      by (simp add: update_membership_frame attach_error_code_value determine_status_frame
          split: option.splits)
  qed
qed

text \<open>The value of an order object that a call has just created.\<close>

lemma handle_order_new_value:
  assumes i: "resolve_id m outer = Inr i" and n: "by_id (trader_orders s) i = None"
    and h: "handle_order m outer forced s = Inr (r, seen, s')"
  shows "order_objs s' r =
     (create_order_from_message m i)
       \<lparr>Order.status := Order.status (order_objs s' r),
        Order.error_code := Order.error_code (order_objs s' r)\<rparr>"
proof -
  from h handle_order_unknown [OF i n, of forced]
  have r: "r = next_ref s" and s': "s' = update_membership False r
            (attach_error_code outer r
               (determine_status m forced False r
                  (snd (new_order (create_order_from_message m i) s))))" by auto
  show ?thesis unfolding s'
    by (simp add: update_membership_frame attach_error_code_def determine_status_def
        set_status_def set_error_code_def new_order_def r
        split: option.splits)
qed

text \<open>A second delivery to an order that is live and already carries the decided status.\<close>

lemma handle_order_again_live:
  assumes i: "resolve_id m outer = Inr i" and k: "by_id (trader_orders s) i = Some r"
    and live: "Order.status (order_objs s r) \<in> statuses_to_keep"
    and st: "\<And>st. order_msg.status m = Some st \<Longrightarrow> Order.status (order_objs s r) = Some st"
      "\<And>st. order_msg.status m = None \<Longrightarrow> forced = Some st \<Longrightarrow>
         Order.status (order_objs s r) = Some st"
    and ec: "\<And>om. outer = Some om \<Longrightarrow> envelope.error_code om \<noteq> 0 \<Longrightarrow>
         Order.error_code (order_objs s r) = Some (envelope.error_code om)"
  shows "handle_order m outer forced s = Inr (r, True, s)"
proof -
  have d: "determine_status m forced True r s = s"
    using st by (auto simp: determine_status_def set_status_same split: option.splits)
  have a: "attach_error_code outer r s = s"
    using ec by (auto simp: attach_error_code_def set_error_code_same split: option.splits)
  have u: "update_membership True r s = s"
    using live by (simp add: update_membership_def)
  show ?thesis using handle_order_known [OF i k, of forced] by (simp add: d a u)
qed


subsection \<open>The pending list and the field handlers: what they leave alone\<close>

lemma resolve_id_inner:
  "length (orig_client_id m) = 16 \<Longrightarrow> resolve_id m outer = Inr (orig_client_id m)"
  by (auto simp: resolve_id_def UUID_def)

lemma schedule_event_fields [simp]:
  "market_id (schedule_event ev s) = market_id s"
  "trader (schedule_event ev s) = trader s"
  "trader_position (schedule_event ev s) = trader_position s"
  "trader_orders (schedule_event ev s) = trader_orders s"
  "order_book (schedule_event ev s) = order_book s"
  "bot (schedule_event ev s) = bot s"
  "currency_pair (schedule_event ev s) = currency_pair s"
  "last_trade (schedule_event ev s) = last_trade s"
  "order_objs (schedule_event ev s) = order_objs s"
  "next_ref (schedule_event ev s) = next_ref s"
  "pair_objs (schedule_event ev s) = pair_objs s"
  "called (schedule_event ev s) = called s"
  "tasks (schedule_event ev s) = tasks s"
  by (simp_all add: schedule_event_def)

lemma schedule_event_pending:
  "set (scheduled_events (schedule_event ev s)) = insert ev (set (scheduled_events s))"
  "distinct (scheduled_events s) \<Longrightarrow> distinct (scheduled_events (schedule_event ev s))"
  by (auto simp: schedule_event_def)

text \<open>The field handlers touch neither the order objects nor the registry map.\<close>

lemma field_handlers_orders [simp]:
  "order_objs (handle_balance m s) = order_objs s"
  "next_ref (handle_balance m s) = next_ref s"
  "by_id (trader_orders (handle_balance m s)) = by_id (trader_orders s)"
  "order_objs (handle_mark_price m s) = order_objs s"
  "next_ref (handle_mark_price m s) = next_ref s"
  "by_id (trader_orders (handle_mark_price m s)) = by_id (trader_orders s)"
  "order_objs (handle_last_trade m s) = order_objs s"
  "next_ref (handle_last_trade m s) = next_ref s"
  "by_id (trader_orders (handle_last_trade m s)) = by_id (trader_orders s)"
  "order_objs (handle_order_margin m s) = order_objs s"
  "next_ref (handle_order_margin m s) = next_ref s"
  "by_id (trader_orders (handle_order_margin m s)) = by_id (trader_orders s)"
  "order_objs (handle_position m s) = order_objs s"
  "next_ref (handle_position m s) = next_ref s"
  "by_id (trader_orders (handle_position m s)) = by_id (trader_orders s)"
  "order_objs (handle_leverage m s) = order_objs s"
  "next_ref (handle_leverage m s) = next_ref s"
  "by_id (trader_orders (handle_leverage m s)) = by_id (trader_orders s)"
  by (simp_all add: handle_balance_def handle_mark_price_def handle_last_trade_def
      handle_order_margin_def handle_position_def handle_leverage_def)

lemma handle_order_no_envelope:
  assumes h: "handle_order om None forced s = Inr (r, seen, s')"
  shows "resolve_id om None = Inr (orig_client_id om)" and "orig_client_id om \<noteq> []"
    and "seen = (by_id (trader_orders s) (orig_client_id om) \<noteq> None)"
    and "next_ref s \<le> next_ref s'"
    and "\<And>q. q < next_ref s \<Longrightarrow>
           Order.error_code (order_objs s' q) = Order.error_code (order_objs s q)"
    and "\<And>q. next_ref s \<le> q \<Longrightarrow> q < next_ref s' \<Longrightarrow>
           Order.error_code (order_objs s' q) = None"
proof -
  from h obtain i where i: "resolve_id om None = Inr i" by (rule handle_order_resolves)
  then show ne: "orig_client_id om \<noteq> []" by (auto simp: resolve_id_def)
  with i show i': "resolve_id om None = Inr (orig_client_id om)"
    by (auto simp: resolve_id_def UUID_def split: if_splits)
  show "seen = (by_id (trader_orders s) (orig_client_id om) \<noteq> None)"
    using h i' by (auto simp: handle_order_def look_up_by_id_def Let_def split: prod.splits)
  show "next_ref s \<le> next_ref s'"
    using handle_order_known_effect(3) [OF i' _ h] handle_order_unknown_effect(3) [OF i' _ h]
    by (cases "by_id (trader_orders s) (orig_client_id om)") auto
  show "\<And>q. q < next_ref s \<Longrightarrow>
           Order.error_code (order_objs s' q) = Order.error_code (order_objs s q)"
  proof -
    fix q assume q: "q < next_ref s"
    show "Order.error_code (order_objs s' q) = Order.error_code (order_objs s q)"
    proof (cases "by_id (trader_orders s) (orig_client_id om)")
      case None
      from h handle_order_unknown [OF i' None, of forced]
      have s': "s' = update_membership False (next_ref s)
            (attach_error_code None (next_ref s)
               (determine_status om forced False (next_ref s)
                  (snd (new_order (create_order_from_message om (orig_client_id om)) s))))"
        by auto
      show ?thesis using q
        by (simp add: s' update_membership_frame attach_error_code_def determine_status_frame
            new_order_def)
    next
      case (Some r0)
      from h handle_order_known [OF i' Some, of forced]
      have s': "s' = update_membership True r0
            (attach_error_code None r0 (determine_status om forced True r0 s))" by auto
      show ?thesis
        by (simp add: s' update_membership_frame attach_error_code_def determine_status_frame)
    qed
  qed
  show "\<And>q. next_ref s \<le> q \<Longrightarrow> q < next_ref s' \<Longrightarrow>
           Order.error_code (order_objs s' q) = None"
  proof -
    fix q assume q: "next_ref s \<le> q" "q < next_ref s'"
    show "Order.error_code (order_objs s' q) = None"
    proof (cases "by_id (trader_orders s) (orig_client_id om)")
      case None
      from h handle_order_unknown [OF i' None, of forced]
      have s': "s' = update_membership False (next_ref s)
            (attach_error_code None (next_ref s)
               (determine_status om forced False (next_ref s)
                  (snd (new_order (create_order_from_message om (orig_client_id om)) s))))"
        by auto
      have "next_ref s' = Suc (next_ref s)"
        by (simp add: s' update_membership_frame attach_error_code_def determine_status_frame
            new_order_def)
      with q have "q = next_ref s" by simp
      then show ?thesis
        by (simp add: s' update_membership_frame attach_error_code_def determine_status_frame
            new_order_def create_order_from_message_def)
    next
      case (Some r0)
      from handle_order_known_effect(3) [OF i' Some h] q show ?thesis by simp
    qed
  qed
qed

text \<open>The loop over embedded orders without an envelope.\<close>

lemma handle_orders_no_envelope:
  assumes "out = handle_orders None forced oms s"
  shows "next_ref s \<le> next_ref (final out) \<and>
     (\<forall>q < next_ref s. Order.error_code (order_objs (final out) q) =
        Order.error_code (order_objs s q)) \<and>
     (\<forall>q. next_ref s \<le> q \<and> q < next_ref (final out) \<longrightarrow>
        Order.error_code (order_objs (final out) q) = None)"
  using assms
proof (induction oms arbitrary: s out)
  case Nil
  then show ?case by auto
next
  case (Cons om oms)
  show ?case
  proof (cases "handle_order om None forced s")
    case (Inl e)
    then show ?thesis using Cons.prems by auto
  next
    case (Inr res)
    obtain r seen s' where res: "res = (r, seen, s')" by (cases res) auto
    have h: "handle_order om None forced s = Inr (r, seen, s')" using Inr res by simp
    note e = handle_order_no_envelope [OF h]
    let ?s1 = "schedule_event (Order_on_update r) s'"
    have out: "out = handle_orders None forced oms ?s1" using Cons.prems h by simp
    note ih = Cons.IH [OF out]
    show ?thesis
    proof (intro conjI allI impI)
      show "next_ref s \<le> next_ref (final out)" using ih e(4) by simp
    next
      fix q assume "q < next_ref s"
      then show "Order.error_code (order_objs (final out) q) = Order.error_code (order_objs s q)"
        using ih e(4,5) by simp
    next
      fix q assume q: "next_ref s \<le> q \<and> q < next_ref (final out)"
      show "Order.error_code (order_objs (final out) q) = None"
      proof (cases "q < next_ref s'")
        case True
        then show ?thesis using ih e(6) [of q] q by simp
      next
        case False
        then show ?thesis using ih q by simp
      qed
    qed
  qed
qed

lemma handle_orders_append:
  "handle_orders outer forced (xs @ ys) s =
     (case handle_orders outer forced xs s of
        Failed e s' \<Rightarrow> Failed e s'
      | Done s' \<Rightarrow> handle_orders outer forced ys s')"
  by (induction xs arbitrary: s) (auto split: sum.splits)

lemma handle_orders_Done:
  "\<forall>x \<in> set xs. length (orig_client_id x) = 16 \<Longrightarrow>
     \<exists>s'. handle_orders outer forced xs s = Done s'"
proof (induction xs arbitrary: s)
  case Nil
  then show ?case by simp
next
  case (Cons x xs)
  then have "resolve_id x outer = Inr (orig_client_id x)" by (simp add: resolve_id_inner)
  then obtain res where "handle_order x outer forced s = Inr res"
    using handle_order_fails_iff [of x outer forced s] by (cases "handle_order x outer forced s") auto
  then show ?case using Cons by (auto split: prod.splits)
qed

lemma handle_orders_empty_id:
  assumes "\<forall>x \<in> set pre. length (orig_client_id x) = 16" "orig_client_id om = []"
  shows "\<exists>s'. handle_orders None forced (pre @ om # post) s = Failed AttributeError s'"
proof -
  obtain s1 where s1: "handle_orders None forced pre s = Done s1"
    using handle_orders_Done [OF assms(1)] by blast
  have "resolve_id om None = Inl AttributeError" using assms(2) by (simp add: resolve_id_def)
  then have "handle_order om None forced s1 = Inl AttributeError"
    by (simp add: handle_order_fails_iff)
  then show ?thesis by (simp add: handle_orders_append s1)
qed


subsection \<open>The priority of the status sources\<close>

text \<open>
  Claim C7. After a successful call of \<^verbatim>\<open>handle_order\<close>, where \<open>seen\<close> tells whether the
  registry knew the resolved id: the order has the explicit status of the message when
  there is one; otherwise the forced status when there is one; otherwise, for an order not
  known before, ACCEPTED if the message's original quantity equals the order's quantity
  and PARTIAL if not; and for a known order with neither, the status it had.
\<close>

theorem handle_order_status_priority:
  assumes h: "handle_order m outer forced s = Inr (r, seen, s')"
  shows "(\<exists>i. resolve_id m outer = Inr i \<and> seen = (by_id (trader_orders s) i \<noteq> None)) \<and>
     Order.status (order_objs s' r) =
       (case order_msg.status m of
          Some st \<Rightarrow> Some st
        | None \<Rightarrow>
           (case forced of
              Some st \<Rightarrow> Some st
            | None \<Rightarrow>
               if seen then Order.status (order_objs s r)
               else if orig_quantity m = Order.quantity (order_objs s' r) then Some ACCEPTED
               else Some PARTIAL))"
proof -
  from h obtain i where i: "resolve_id m outer = Inr i" by (rule handle_order_resolves)
  show ?thesis using i handle_order_seen [OF h i] handle_order_status [OF h] by simp
qed

text \<open>
  A new order of quantity 10 whose record reports an original quantity of 12, with no
  status and no forced status, is inferred PARTIAL.
\<close>

theorem handle_order_status_priority_witness:
  "handle_order partial_report None None fresh_market = Inr (0, False, partial_market) \<and>
   Order.status (order_objs partial_market 0) = Some PARTIAL \<and>
   Order.quantity (order_objs partial_market 0) = 10 \<and>
   orig_quantity partial_report = 12"
proof -
  have i: "resolve_id partial_report None = Inr ''0123456789abcdef''" by code_simp
  have n: "by_id (trader_orders fresh_market) ''0123456789abcdef'' = None" by code_simp
  have z: "next_ref fresh_market = 0" by code_simp
  have h: "handle_order partial_report None None fresh_market = Inr (0, False, partial_market)"
    using handle_order_unknown [OF i n, of None] by (simp add: z partial_market_def)
  have q: "Order.quantity (order_objs partial_market 0) = 10" by code_simp
  have o: "orig_quantity partial_report = 12" "order_msg.status partial_report = None"
    by code_simp+
  show ?thesis
    using handle_order_status_priority [OF h] h q o by simp
qed

subsection \<open>Embedded orders of a trader-status message\<close>

text \<open>
  Claim C9. The trader-status handler reconciles every embedded order record without an
  envelope. Without an envelope: a record with an empty inner client id makes
  \<^verbatim>\<open>handle_order\<close> raise \<^verbatim>\<open>AttributeError\<close>; a successful call has resolved the inner
  client id, and the order's error code is the one it had (none for a new order). Over the
  whole handler, whether it returns or raises, every order object that existed keeps its
  error code and every order object created has none. If the first record that is not
  well-formed has an empty client id, the handler and \<^verbatim>\<open>handle_message\<close> raise
  \<^verbatim>\<open>AttributeError\<close>.
\<close>

theorem trader_status_orders_have_no_envelope:
  "(orig_client_id om = [] \<longrightarrow> handle_order om None forced s = Inl AttributeError) \<and>
   (handle_order om None forced s = Inr (r, seen, s') \<longrightarrow>
      resolve_id om None = Inr (orig_client_id om) \<and>
      Order.error_code (order_objs s' r) =
        (if seen then Order.error_code (order_objs s r) else None)) \<and>
   (\<forall>q < next_ref s.
      Order.error_code (order_objs (final (handle_trader_status_msg m s)) q) =
        Order.error_code (order_objs s q)) \<and>
   (\<forall>q. next_ref s \<le> q \<and> q < next_ref (final (handle_trader_status_msg m s)) \<longrightarrow>
      Order.error_code (order_objs (final (handle_trader_status_msg m s)) q) = None) \<and>
   (orders m = pre @ om # post \<and> (\<forall>x \<in> set pre. length (orig_client_id x) = 16) \<and>
    orig_client_id om = [] \<longrightarrow>
      (\<exists>s1. handle_trader_status_msg m s = Failed AttributeError s1) \<and>
      (\<exists>s1. handle_message cb \<lparr>client_id = c, envelope.error_code = ec,
                               kontent = trader_status_msg m\<rparr> s = Failed AttributeError s1))"
proof (intro conjI impI)
  assume "orig_client_id om = []"
  then have "resolve_id om None = Inl AttributeError" by (simp add: resolve_id_def)
  then show "handle_order om None forced s = Inl AttributeError"
    by (simp add: handle_order_fails_iff)
next
  assume h: "handle_order om None forced s = Inr (r, seen, s')"
  show "resolve_id om None = Inr (orig_client_id om)" by (rule handle_order_no_envelope(1) [OF h])
next
  assume h: "handle_order om None forced s = Inr (r, seen, s')"
  note e = handle_order_no_envelope [OF h]
  show "Order.error_code (order_objs s' r) =
        (if seen then Order.error_code (order_objs s r) else None)"
  proof (cases "by_id (trader_orders s) (orig_client_id om)")
    case None
    note u = handle_order_unknown_effect [OF e(1) None h]
    show ?thesis using e(6) [of r] u(1,2,3) by simp
  next
    case (Some r0)
    from h handle_order_known [OF e(1) Some, of forced]
    have s': "r = r0" "seen" "s' = update_membership True r0
            (attach_error_code None r0 (determine_status om forced True r0 s))" by auto
    show ?thesis
      by (simp add: s' update_membership_frame attach_error_code_def determine_status_frame)
  qed
next
  let ?s0 = "handle_leverage m (handle_position m (handle_order_margin m
     (handle_last_trade m (handle_mark_price m (handle_balance m s)))))"
  have eq: "handle_trader_status_msg m s = handle_orders None None (orders m) ?s0"
    by (simp add: handle_trader_status_msg_def)
  note fr = handle_orders_no_envelope [OF eq]
  show "\<forall>q < next_ref s.
      Order.error_code (order_objs (final (handle_trader_status_msg m s)) q) =
        Order.error_code (order_objs s q)"
    using fr by simp
  show "\<forall>q. next_ref s \<le> q \<and> q < next_ref (final (handle_trader_status_msg m s)) \<longrightarrow>
      Order.error_code (order_objs (final (handle_trader_status_msg m s)) q) = None"
    using fr by simp
next
  assume a: "orders m = pre @ om # post \<and> (\<forall>x \<in> set pre. length (orig_client_id x) = 16) \<and>
    orig_client_id om = []"
  then show "\<exists>s1. handle_trader_status_msg m s = Failed AttributeError s1"
    using handle_orders_empty_id [of pre om None post]
    by (simp add: handle_trader_status_msg_def)
next
  assume a: "orders m = pre @ om # post \<and> (\<forall>x \<in> set pre. length (orig_client_id x) = 16) \<and>
    orig_client_id om = []"
  then have "\<exists>s1. handle_trader_status_msg m s = Failed AttributeError s1"
    using handle_orders_empty_id [of pre om None post]
    by (simp add: handle_trader_status_msg_def)
  then show "\<exists>s1. handle_message cb \<lparr>client_id = c, envelope.error_code = ec,
                               kontent = trader_status_msg m\<rparr> s = Failed AttributeError s1"
    by (auto simp: handle_message_def dispatch_def)
qed


theorem trader_status_orders_have_no_envelope_witness:
  "orig_client_id blank_order_msg = [] \<and>
   handle_order blank_order_msg None None known_market = Inl AttributeError \<and>
   handle_order partial_report None None fresh_market = Inr (0, False, partial_market) \<and>
   resolve_id partial_report None = Inr (orig_client_id partial_report) \<and>
   Order.error_code (order_objs partial_market 0) = None \<and>
   0 < next_ref known_market \<and>
   Order.error_code (order_objs (final (handle_trader_status_msg anonymous_status known_market)) 0)
     = Order.error_code (order_objs known_market 0) \<and>
   next_ref known_market \<le> 1 \<and>
   1 < next_ref (final (handle_trader_status_msg anonymous_status known_market)) \<and>
   Order.error_code (order_objs (final (handle_trader_status_msg anonymous_status known_market)) 1)
     = None \<and>
   orders anonymous_status = [other_report] @ blank_order_msg # [] \<and>
   length (orig_client_id other_report) = 16 \<and>
   (\<exists>s1. handle_trader_status_msg anonymous_status known_market = Failed AttributeError s1) \<and>
   (\<exists>s1. handle_message (\<lambda>ev. Returns_None)
           \<lparr>client_id = [], envelope.error_code = 0,
            kontent = trader_status_msg anonymous_status\<rparr> known_market
         = Failed AttributeError s1)"
proof -
  have e: "orig_client_id blank_order_msg = []" by code_simp
  have i: "resolve_id partial_report None = Inr ''0123456789abcdef''" by code_simp
  have n: "by_id (trader_orders fresh_market) ''0123456789abcdef'' = None" by code_simp
  have z: "next_ref fresh_market = 0" by code_simp
  have h: "handle_order partial_report None None fresh_market = Inr (0, False, partial_market)"
    using handle_order_unknown [OF i n, of None] by (simp add: z partial_market_def)
  have k: "0 < next_ref known_market" "next_ref known_market \<le> 1"
    "1 < next_ref (final (handle_trader_status_msg anonymous_status known_market))"
    by code_simp+
  have o: "orders anonymous_status = [other_report] @ blank_order_msg # []"
    "length (orig_client_id other_report) = 16"
    by code_simp+
  note A = trader_status_orders_have_no_envelope
    [of blank_order_msg None known_market 0 False known_market anonymous_status
        "[other_report]" "[]" "\<lambda>ev. Returns_None" "[]" 0]
  note B = trader_status_orders_have_no_envelope
    [of partial_report None fresh_market 0 False partial_market anonymous_status
        "[other_report]" "[]" "\<lambda>ev. Returns_None" "[]" 0]
  show ?thesis using A B e h k o by simp
qed

subsection \<open>Delivering the same message twice\<close>

text \<open>
  Claim C6, amended. In a market that satisfies the registry invariant, let a message be
  reconciled successfully and then reconciled again at once. The second call succeeds and
  leaves the registry as the first call left it; it finds the order known exactly when the
  order is live after the first call; the order it returns has the same id and the same
  status as the order after the first call. When the order is live after the first call,
  the second call returns the same order object and changes nothing. When the first call
  did not know the order, the two returned orders have the same state. When the order is
  not live after the first call, the second call returns a new order built from the fields
  of the message, with that status and the envelope's nonzero error code.
\<close>

theorem handle_order_redelivery:
  assumes inv: "registry_invariant s"
    and h: "handle_order m outer forced s = Inr (r1, seen1, s1)"
  shows "\<exists>r2 seen2 s2.
     handle_order m outer forced s1 = Inr (r2, seen2, s2) \<and>
     trader_orders s2 = trader_orders s1 \<and>
     seen2 = (Order.status (order_objs s1 r1) \<in> statuses_to_keep) \<and>
     order_id (order_objs s2 r2) = order_id (order_objs s1 r1) \<and>
     Order.status (order_objs s2 r2) = Order.status (order_objs s1 r1) \<and>
     (Order.status (order_objs s1 r1) \<in> statuses_to_keep \<longrightarrow> r2 = r1 \<and> s2 = s1) \<and>
     (\<not> seen1 \<longrightarrow> order_objs s2 r2 = order_objs s1 r1) \<and>
     (Order.status (order_objs s1 r1) \<notin> statuses_to_keep \<longrightarrow>
        order_objs s2 r2 =
          (create_order_from_message m (order_id (order_objs s1 r1)))
            \<lparr>Order.status := Order.status (order_objs s1 r1),
             Order.error_code :=
               (case outer of
                  None \<Rightarrow> None
                | Some om \<Rightarrow> if envelope.error_code om \<noteq> 0
                             then Some (envelope.error_code om) else None)\<rparr>)"
proof -
  from h obtain i where i: "resolve_id m outer = Inr i" by (rule handle_order_resolves)
  have I: "\<And>j q. by_id (trader_orders s) j = Some q \<longleftrightarrow>
        (q < next_ref s \<and> order_id (order_objs s q) = j \<and>
         Order.status (order_objs s q) \<in> statuses_to_keep)"
    using inv by (simp add: registry_invariant_def)
  have inv1: "registry_invariant s1" by (rule handle_order_invariant [OF inv h])
  have I1: "\<And>j q. by_id (trader_orders s1) j = Some q \<longleftrightarrow>
        (q < next_ref s1 \<and> order_id (order_objs s1 q) = j \<and>
         Order.status (order_objs s1 q) \<in> statuses_to_keep)"
    using inv1 by (simp add: registry_invariant_def)
  note st1 = handle_order_status [OF h]
  note ec1 = handle_order_error_code [OF h]
  note seen1 = handle_order_seen [OF h i]
  have id1: "order_id (order_objs s1 r1) = i" and r1: "r1 < next_ref s1"
  proof -
    show "order_id (order_objs s1 r1) = i"
    proof (cases "by_id (trader_orders s) i")
      case None
      show ?thesis by (rule handle_order_unknown_effect(5) [OF i None h])
    next
      case (Some r0)
      note e = handle_order_known_effect [OF i Some h]
      show ?thesis using e(1,5) I [of i r0] Some by simp
    qed
    show "r1 < next_ref s1"
    proof (cases "by_id (trader_orders s) i")
      case None
      note e = handle_order_unknown_effect [OF i None h]
      show ?thesis using e(1,3) by simp
    next
      case (Some r0)
      note e = handle_order_known_effect [OF i Some h]
      show ?thesis using e(1,3) I [of i r0] Some by simp
    qed
  qed
  show ?thesis
  proof (cases "Order.status (order_objs s1 r1) \<in> statuses_to_keep")
    case True
    have k: "by_id (trader_orders s1) i = Some r1" using I1 [of i r1] True id1 r1 by simp
    have again: "handle_order m outer forced s1 = Inr (r1, True, s1)"
    proof (rule handle_order_again_live [OF i k True])
      fix st assume "order_msg.status m = Some st"
      then show "Order.status (order_objs s1 r1) = Some st" using st1 by simp
    next
      fix st assume "order_msg.status m = None" "forced = Some st"
      then show "Order.status (order_objs s1 r1) = Some st" using st1 by simp
    next
      fix om assume "outer = Some om" "envelope.error_code om \<noteq> 0"
      then show "Order.error_code (order_objs s1 r1) = Some (envelope.error_code om)"
        using ec1 by simp
    qed
    show ?thesis using again True
      by (intro exI [of _ r1] exI [of _ True] exI [of _ s1]) simp
  next
    case False
    have n1: "by_id (trader_orders s1) i = None"
    proof (cases "by_id (trader_orders s1) i")
      case None then show ?thesis .
    next
      case (Some q)
      have q: "q < next_ref s1" "order_id (order_objs s1 q) = i"
        "Order.status (order_objs s1 q) \<in> statuses_to_keep" using I1 [of i q] Some by simp_all
      have "q = r1"
      proof (cases "by_id (trader_orders s) i")
        case None
        note e = handle_order_unknown_effect [OF i None h]
        show ?thesis
        proof (rule ccontr)
          assume ne: "q \<noteq> r1"
          then have "order_objs s1 q = order_objs s q" by (rule e(4))
          moreover have "q < next_ref s" using q(1) e(1,3) ne by simp
          ultimately have "by_id (trader_orders s) i = Some q" using I [of i q] q by simp
          then show False using None by simp
        qed
      next
        case (Some r0)
        note e = handle_order_known_effect [OF i Some h]
        show ?thesis
        proof (rule ccontr)
          assume ne: "q \<noteq> r1"
          then have "order_objs s1 q = order_objs s q" by (rule e(4))
          moreover have "q < next_ref s" using q(1) e(3) by simp
          ultimately have "by_id (trader_orders s) i = Some q" using I [of i q] q by simp
          then show False using Some e(1) ne by simp
        qed
      qed
      then show ?thesis using q(3) False by simp
    qed
    have given: "order_msg.status m \<noteq> None \<or> forced \<noteq> None"
    proof (rule ccontr)
      assume "\<not> (order_msg.status m \<noteq> None \<or> forced \<noteq> None)"
      then have nn: "order_msg.status m = None" "forced = None" by simp_all
      show False
      proof (cases "by_id (trader_orders s) i")
        case None
        then have "\<not> seen1" using seen1 by simp
        then show ?thesis using st1 nn False by (auto simp: statuses_to_keep_def split: if_splits)
      next
        case (Some r0)
        note e = handle_order_known_effect [OF i Some h]
        have "Order.status (order_objs s r0) \<in> statuses_to_keep" using I [of i r0] Some by simp
        then show ?thesis using st1 nn False e(1,2) by simp
      qed
    qed
    define r2 where "r2 = next_ref s1"
    define s2 where "s2 = update_membership False r2
            (attach_error_code outer r2
               (determine_status m forced False r2
                  (snd (new_order (create_order_from_message m i) s1))))"
    have h2: "handle_order m outer forced s1 = Inr (r2, False, s2)"
      using handle_order_unknown [OF i n1, of forced] by (simp add: r2_def s2_def)
    note st2 = handle_order_status [OF h2]
    note ec2 = handle_order_error_code [OF h2]
    have same_status: "Order.status (order_objs s2 r2) = Order.status (order_objs s1 r1)"
      using st1 st2 given by (auto split: option.splits)
    note e2 = handle_order_unknown_effect [OF i n1 h2]
    have reg: "by_id (trader_orders s2) = by_id (trader_orders s1)"
      using e2(6) same_status False by simp
    have tr: "trader_orders s2 = trader_orders s1"
    proof -
      let ?t = "attach_error_code outer r2
               (determine_status m forced False r2
                  (snd (new_order (create_order_from_message m i) s1)))"
      have "Order.status (order_objs ?t r2) = Order.status (order_objs s2 r2)"
        by (simp add: s2_def update_membership_frame)
      then have "Order.status (order_objs ?t r2) \<notin> statuses_to_keep"
        using same_status False by simp
      then have "s2 = ?t" by (simp add: s2_def update_membership_def)
      then show ?thesis
        by (simp add: attach_error_code_frame determine_status_frame new_order_def)
    qed
    have v2: "order_objs s2 r2 =
          (create_order_from_message m i)
            \<lparr>Order.status := Order.status (order_objs s1 r1),
             Order.error_code :=
               (case outer of
                  None \<Rightarrow> None
                | Some om \<Rightarrow> if envelope.error_code om \<noteq> 0
                             then Some (envelope.error_code om) else None)\<rparr>"
      using handle_order_new_value [OF i n1 h2] same_status ec2 by (simp split: option.splits)
    have v1: "\<not> seen1 \<Longrightarrow> order_objs s2 r2 = order_objs s1 r1"
    proof -
      assume ns: "\<not> seen1"
      then have n: "by_id (trader_orders s) i = None" using seen1 by simp
      have b: "Order.error_code (order_objs s1 r1) =
               (case outer of
                  None \<Rightarrow> None
                | Some om \<Rightarrow> if envelope.error_code om \<noteq> 0
                             then Some (envelope.error_code om) else None)"
        using ec1 ns by (simp split: option.splits)
      have "order_objs s1 r1 =
          (create_order_from_message m i)
            \<lparr>Order.status := Order.status (order_objs s1 r1),
             Order.error_code := Order.error_code (order_objs s1 r1)\<rparr>"
        by (rule handle_order_new_value [OF i n h])
      also have "\<dots> = order_objs s2 r2" by (simp only: v2 b)
      finally show ?thesis by simp
    qed
    show ?thesis
      using h2 tr False e2(5) id1 same_status v2 v1
      by (intro exI [of _ r2] exI [of _ False] exI [of _ s2]) simp
  qed
qed


text \<open>
  The known order, reported FILLED with quantity 0: the first call removes it, the second
  builds a new order from the message and leaves the registry empty.
\<close>

theorem handle_order_redelivery_witness:
  "registry_invariant known_market \<and>
   handle_order filled_report (Some filled_envelope) None known_market
     = Inr (0, True, filled_market) \<and>
   (\<exists>r2 seen2 s2.
     handle_order filled_report (Some filled_envelope) None filled_market
       = Inr (r2, seen2, s2) \<and>
     trader_orders s2 = trader_orders filled_market \<and>
     \<not> seen2 \<and>
     Order.status (order_objs s2 r2) = Some FILLED \<and>
     Order.quantity (order_objs s2 r2) = 0) \<and>
   Order.status (order_objs filled_market 0) = Some FILLED \<and>
   Order.quantity (order_objs filled_market 0) = 10 \<and>
   by_id (trader_orders filled_market) ''0123456789abcdef'' = None"
proof -
  have inv: "registry_invariant known_market"
    by (auto simp: registry_invariant_def known_market_def fresh_market_def Market_init_def
        known_order_def statuses_to_keep_def)
  have i: "resolve_id filled_report (Some filled_envelope) = Inr ''0123456789abcdef''"
    by code_simp
  have k: "by_id (trader_orders known_market) ''0123456789abcdef'' = Some 0" by code_simp
  have h: "handle_order filled_report (Some filled_envelope) None known_market
     = Inr (0, True, filled_market)"
    using handle_order_known [OF i k, of None] by (simp add: filled_market_def)
  have f: "Order.status (order_objs filled_market 0) = Some FILLED"
    "Order.quantity (order_objs filled_market 0) = 10"
    "by_id (trader_orders filled_market) ''0123456789abcdef'' = None"
    "Some FILLED \<notin> statuses_to_keep"
    "Order.quantity (create_order_from_message filled_report ''0123456789abcdef'') = 0"
    "order_id (order_objs filled_market 0) = ''0123456789abcdef''"
    by code_simp+
  show ?thesis
    using handle_order_redelivery [OF inv h] inv h f by auto
qed

text \<open>
  The claim as stated fails on that input: the order after the first call has the stored
  quantity 10, the order returned by the second call has the quantity 0 of the message.
\<close>

theorem handle_order_redelivery_counterexample:
  "handle_order_twice filled_report (Some filled_envelope) None known_market =
     Inr (\<lparr>order_id = ''0123456789abcdef'', Order.price = 100, Order.quantity = 10,
           Order.side = 0, Order.type = 0, Order.duration = 0, Order.status = Some FILLED,
           Order.error_code = None\<rparr>,
          \<lparr>order_id = ''0123456789abcdef'', Order.price = 100, Order.quantity = 0,
           Order.side = 0, Order.type = 0, Order.duration = 0, Order.status = Some FILLED,
           Order.error_code = None\<rparr>)"
  by code_simp

subsection \<open>Calling the pending events\<close>

lemma emit_events_conforming:
  "\<forall>ev \<in> set evs. cb ev \<noteq> Returns_other \<Longrightarrow>
     emit_events cb evs s =
       Done (s\<lparr>called := called s @ evs,
               tasks := tasks s @
                 map Callback_coroutine (filter (\<lambda>ev. cb ev = Returns_coroutine) evs)\<rparr>)"
proof (induction evs arbitrary: s)
  case Nil
  then show ?case by simp
next
  case (Cons ev evs)
  then show ?case
    by (cases "cb ev") (simp_all add: emit_event_def)
qed

lemma emit_events_append:
  "emit_events cb (xs @ ys) s =
     (case emit_events cb xs s of
        Failed e s' \<Rightarrow> Failed e s'
      | Done s' \<Rightarrow> emit_events cb ys s')"
  by (induction xs arbitrary: s) (auto split: outcome.splits)

lemma emit_events_violation:
  assumes "\<forall>e \<in> set pre. cb e \<noteq> Returns_other" "cb ev = Returns_other"
  shows "emit_events cb (pre @ ev # post) s =
       Failed TypeError
         (s\<lparr>called := called s @ pre @ [ev],
            tasks := tasks s @
              map Callback_coroutine (filter (\<lambda>e. cb e = Returns_coroutine) pre)\<rparr>)"
  using assms
  by (simp add: emit_events_append emit_events_conforming emit_event_def)

text \<open>The steps of the reconciler touch only the order objects and the registry.\<close>

lemma order_steps_frame [simp]:
  "scheduled_events (determine_status m forced seen r s) = scheduled_events s"
  "called (determine_status m forced seen r s) = called s"
  "tasks (determine_status m forced seen r s) = tasks s"
  "order_book (determine_status m forced seen r s) = order_book s"
  "last_trade (determine_status m forced seen r s) = last_trade s"
  "scheduled_events (attach_error_code outer r s) = scheduled_events s"
  "called (attach_error_code outer r s) = called s"
  "tasks (attach_error_code outer r s) = tasks s"
  "order_book (attach_error_code outer r s) = order_book s"
  "last_trade (attach_error_code outer r s) = last_trade s"
  "scheduled_events (update_membership seen r s) = scheduled_events s"
  "called (update_membership seen r s) = called s"
  "tasks (update_membership seen r s) = tasks s"
  "order_book (update_membership seen r s) = order_book s"
  "last_trade (update_membership seen r s) = last_trade s"
  "scheduled_events (snd (new_order ord s)) = scheduled_events s"
  "called (snd (new_order ord s)) = called s"
  "tasks (snd (new_order ord s)) = tasks s"
  "order_book (snd (new_order ord s)) = order_book s"
  "last_trade (snd (new_order ord s)) = last_trade s"
  by (simp_all add: determine_status_def attach_error_code_def update_membership_def
      new_order_def set_status_def set_error_code_def add_def remove_def split: option.splits)

lemma handle_order_frame:
  assumes h: "handle_order m outer forced s = Inr (r, seen, s')"
  shows "scheduled_events s' = scheduled_events s" and "called s' = called s"
    and "tasks s' = tasks s" and "order_book s' = order_book s"
    and "last_trade s' = last_trade s"
proof -
  from h obtain i where i: "resolve_id m outer = Inr i" by (rule handle_order_resolves)
  have "scheduled_events s' = scheduled_events s \<and> called s' = called s \<and>
    tasks s' = tasks s \<and> order_book s' = order_book s \<and> last_trade s' = last_trade s"
  proof (cases "by_id (trader_orders s) i")
    case None
    from h handle_order_unknown [OF i None, of forced] show ?thesis by auto
  next
    case (Some r0)
    from h handle_order_known [OF i Some, of forced] show ?thesis by auto
  qed
  then show "scheduled_events s' = scheduled_events s" and "called s' = called s"
    and "tasks s' = tasks s" and "order_book s' = order_book s"
    and "last_trade s' = last_trade s" by simp_all
qed

lemma field_handlers_called [simp]:
  "called (handle_balance m s) = called s"
  "called (handle_mark_price m s) = called s"
  "called (handle_last_trade m s) = called s"
  "called (handle_order_margin m s) = called s"
  "called (handle_position m s) = called s"
  "called (handle_leverage m s) = called s"
  by (simp_all add: handle_balance_def handle_mark_price_def handle_last_trade_def
      handle_order_margin_def handle_position_def handle_leverage_def)

lemma field_handlers_distinct:
  assumes "distinct (scheduled_events s)"
  shows "distinct (scheduled_events (handle_balance m s))"
    "distinct (scheduled_events (handle_mark_price m s))"
    "distinct (scheduled_events (handle_last_trade m s))"
    "distinct (scheduled_events (handle_order_margin m s))"
    "distinct (scheduled_events (handle_position m s))"
    "distinct (scheduled_events (handle_leverage m s))"
  using assms
  by (simp_all add: handle_balance_def handle_mark_price_def handle_last_trade_def
      handle_order_margin_def handle_position_def handle_leverage_def schedule_event_def)

lemma handle_orders_pending:
  "called (final (handle_orders outer forced oms s)) = called s \<and>
   set (scheduled_events s) \<subseteq> set (scheduled_events (final (handle_orders outer forced oms s))) \<and>
   (distinct (scheduled_events s) \<longrightarrow>
      distinct (scheduled_events (final (handle_orders outer forced oms s))))"
proof (induction oms arbitrary: s)
  case Nil
  then show ?case by simp
next
  case (Cons om oms)
  show ?case
  proof (cases "handle_order om outer forced s")
    case (Inl e)
    then show ?thesis by simp
  next
    case (Inr res)
    obtain r seen s' where res: "res = (r, seen, s')" by (cases res) auto
    have h: "handle_order om outer forced s = Inr (r, seen, s')" using Inr res by simp
    note f = handle_order_frame [OF h]
    let ?s1 = "schedule_event (Order_on_update r) s'"
    have eq: "handle_orders outer forced (om # oms) s = handle_orders outer forced oms ?s1"
      using h by simp
    have "set (scheduled_events s) \<subseteq> set (scheduled_events ?s1)"
      "distinct (scheduled_events s) \<longrightarrow> distinct (scheduled_events ?s1)"
      "called ?s1 = called s"
      using f by (auto simp: schedule_event_pending)
    then show ?thesis using Cons.IH [of ?s1] unfolding eq by auto
  qed
qed

lemma dispatch_pending:
  "called (final (dispatch message s)) = called s \<and>
   (distinct (scheduled_events s) \<longrightarrow>
      distinct (scheduled_events (final (dispatch message s))))"
proof (cases "kontent message")
  case (trader_status_msg m)
  then show ?thesis
    using handle_orders_pending [of None None "orders m"]
    by (simp add: dispatch_def handle_trader_status_msg_def field_handlers_distinct)
next
  case (trader_balance_msg m)
  then show ?thesis
    by (simp add: dispatch_def handle_trader_balance_msg_def field_handlers_distinct)
next
  case (exchange_rate_msg m)
  then show ?thesis
    by (auto simp: dispatch_def handle_exchange_rate_msg_def schedule_event_def
        split: option.splits)
next
  case (order_book_msg m)
  then show ?thesis
    by (auto simp: dispatch_def handle_order_book_msg_def schedule_event_pending
        field_handlers_distinct)
next
  case (order_book_updated_msg m)
  then show ?thesis
    by (auto simp: dispatch_def handle_order_book_updated_msg_def schedule_event_pending
        field_handlers_distinct populate_side_def split: option.splits sum.splits if_splits)
next
  case (order_status_msg m)
  show ?thesis
  proof (cases "envelope.error_code message = 0")
    case True
    let ?s1 = "handle_order_margin m (handle_position m (handle_balance m s))"
    have p: "called ?s1 = called s"
      "distinct (scheduled_events s) \<longrightarrow> distinct (scheduled_events ?s1)"
      by (simp_all add: field_handlers_distinct)
    show ?thesis
    proof (cases "handle_order m (Some message) None ?s1")
      case (Inl e)
      then show ?thesis using order_status_msg True p
        by (simp add: dispatch_def handle_order_status_msg_def)
    next
      case (Inr res)
      obtain r seen s' where res: "res = (r, seen, s')" by (cases res) auto
      have h: "handle_order m (Some message) None ?s1 = Inr (r, seen, s')" using Inr res by simp
      note f = handle_order_frame [OF h]
      show ?thesis using order_status_msg True p h f
        by (simp add: dispatch_def handle_order_status_msg_def schedule_event_pending)
    qed
  next
    case False
    show ?thesis
    proof (cases "handle_order m (Some message) None s")
      case (Inl e)
      then show ?thesis using order_status_msg False
        by (simp add: dispatch_def handle_order_status_msg_def)
    next
      case (Inr res)
      obtain r seen s' where res: "res = (r, seen, s')" by (cases res) auto
      have h: "handle_order m (Some message) None s = Inr (r, seen, s')" using Inr res by simp
      note f = handle_order_frame [OF h]
      show ?thesis using order_status_msg False h f
        by (simp add: dispatch_def handle_order_status_msg_def schedule_event_pending)
    qed
  qed
next
  case (order_filled_msg m)
  show ?thesis
  proof (cases "envelope.error_code message = 0")
    case True
    let ?s1 = "handle_order_margin m (handle_position m (handle_balance m s))"
    have p: "called ?s1 = called s"
      "distinct (scheduled_events s) \<longrightarrow> distinct (scheduled_events ?s1)"
      by (simp_all add: field_handlers_distinct)
    show ?thesis
    proof (cases "handle_order m (Some message) None ?s1")
      case (Inl e)
      then show ?thesis using order_filled_msg True p
        by (simp add: dispatch_def handle_order_status_msg_def)
    next
      case (Inr res)
      obtain r seen s' where res: "res = (r, seen, s')" by (cases res) auto
      have h: "handle_order m (Some message) None ?s1 = Inr (r, seen, s')" using Inr res by simp
      note f = handle_order_frame [OF h]
      show ?thesis using order_filled_msg True p h f
        by (simp add: dispatch_def handle_order_status_msg_def schedule_event_pending)
    qed
  next
    case False
    show ?thesis
    proof (cases "handle_order m (Some message) None s")
      case (Inl e)
      then show ?thesis using order_filled_msg False
        by (simp add: dispatch_def handle_order_status_msg_def)
    next
      case (Inr res)
      obtain r seen s' where res: "res = (r, seen, s')" by (cases res) auto
      have h: "handle_order m (Some message) None s = Inr (r, seen, s')" using Inr res by simp
      note f = handle_order_frame [OF h]
      show ?thesis using order_filled_msg False h f
        by (simp add: dispatch_def handle_order_status_msg_def schedule_event_pending)
    qed
  qed
next
  case (order_canceled_msg m)
  let ?s1 = "handle_balance m (handle_mark_price m (handle_order_margin m s))"
  let ?s2 = "schedule_event Position_on_update
                 (?s1\<lparr>trader_position := (trader_position ?s1)
                       \<lparr>Position.margin := Some (position_margin m)\<rparr>\<rparr>)"
  have p: "called ?s2 = called s"
    "distinct (scheduled_events s) \<longrightarrow> distinct (scheduled_events ?s2)"
    by (simp_all add: field_handlers_distinct schedule_event_pending)
  show ?thesis
  proof (cases "order_msg.status m")
    case None
    then show ?thesis using order_canceled_msg p
      by (simp add: dispatch_def handle_order_canceled_msg_def Let_def)
  next
    case (Some st)
    then show ?thesis
      using order_canceled_msg p handle_orders_pending [of "Some message" "Some st" "orders m" ?s2]
      by (simp add: dispatch_def handle_order_canceled_msg_def Let_def)
  qed
next
  case (leverage_msg m)
  then show ?thesis
    by (simp add: dispatch_def handle_leverage_msg_def Let_def field_handlers_distinct)
next
  case unhandled
  then show ?thesis by (simp add: dispatch_def)
qed


lemma count_list_distinct:
  "distinct xs \<Longrightarrow> x \<in> set xs \<Longrightarrow> count_list xs x = 1"
  by (induction xs) auto

lemma handle_message_conforming:
  assumes d: "dispatch message s = Done s1"
    and c: "\<forall>e \<in> set (scheduled_events s1). cb e \<noteq> Returns_other"
  shows "\<exists>s2. handle_message cb message s = Done s2 \<and>
     called s2 = called s @ scheduled_events s1 \<and> scheduled_events s2 = [] \<and>
     tasks s2 = tasks s1 @
       map Callback_coroutine (filter (\<lambda>e. cb e = Returns_coroutine) (scheduled_events s1)) \<and>
     order_book s2 = order_book s1 \<and> last_trade s2 = last_trade s1 \<and>
     order_objs s2 = order_objs s1 \<and> trader_orders s2 = trader_orders s1"
proof -
  have "called s1 = called s" using dispatch_pending [of message s] d by simp
  then show ?thesis
    using d emit_events_conforming [OF c, of s1] by (simp add: handle_message_def)
qed



lemma field_handlers_keep_pending:
  assumes "ev \<in> set (scheduled_events s)"
  shows "ev \<in> set (scheduled_events (handle_balance m s))"
    "ev \<in> set (scheduled_events (handle_mark_price m s))"
    "ev \<in> set (scheduled_events (handle_last_trade m s))"
    "ev \<in> set (scheduled_events (handle_order_margin m s))"
    "ev \<in> set (scheduled_events (handle_position m s))"
    "ev \<in> set (scheduled_events (handle_leverage m s))"
  using assms
  by (simp_all add: handle_balance_def handle_mark_price_def handle_last_trade_def
      handle_order_margin_def handle_position_def handle_leverage_def schedule_event_def)

lemma handle_orders_keep_pending:
  assumes "handle_orders outer forced oms s = Done s1" "ev \<in> set (scheduled_events s)"
  shows "ev \<in> set (scheduled_events s1)"
proof -
  have "set (scheduled_events s) \<subseteq> set (scheduled_events (final (handle_orders outer forced oms s)))"
    using handle_orders_pending [of outer forced oms s] by (rule conjunct1 [OF conjunct2])
  then show ?thesis using assms by (simp add: subset_iff)
qed


subsection \<open>Return values of callbacks\<close>

text \<open>
  Claim C8. A callback that returns nothing completes silently; a coroutine is handed to
  the task scheduler; any other value makes \<^verbatim>\<open>emit_event\<close> raise \<^verbatim>\<open>TypeError\<close> (the
  \<^verbatim>\<open>raise\<close> statement itself, or the concatenation of a string and a type in its argument).
  The exception aborts \<^verbatim>\<open>handle_message\<close>: when the first offending callback of the
  pending list is \<open>ev\<close>, the callbacks before it were called, \<open>ev\<close> was called, the
  callbacks after it are not, and the pending list is not cleared.
\<close>

theorem emit_event_return_shapes:
  "(cb ev = Returns_None \<longrightarrow>
      emit_event cb ev s = Done (s\<lparr>called := called s @ [ev]\<rparr>)) \<and>
   (cb ev = Returns_coroutine \<longrightarrow>
      emit_event cb ev s =
        Done (s\<lparr>called := called s @ [ev], tasks := tasks s @ [Callback_coroutine ev]\<rparr>)) \<and>
   (cb ev = Returns_other \<longrightarrow>
      emit_event cb ev s = Failed TypeError (s\<lparr>called := called s @ [ev]\<rparr>)) \<and>
   (dispatch message s = Done s1 \<and> scheduled_events s1 = pre @ ev # post \<and>
    (\<forall>e \<in> set pre. cb e \<noteq> Returns_other) \<and> cb ev = Returns_other \<longrightarrow>
      handle_message cb message s =
        Failed TypeError
          (s1\<lparr>called := called s1 @ pre @ [ev],
             tasks := tasks s1 @
               map Callback_coroutine (filter (\<lambda>e. cb e = Returns_coroutine) pre)\<rparr>))"
  by (simp add: emit_event_def handle_message_def emit_events_violation)

theorem emit_event_return_shapes_witness:
  "dispatch balance_envelope fresh_market = Done (handle_trader_balance_msg blank_msg fresh_market) \<and>
   scheduled_events (handle_trader_balance_msg blank_msg fresh_market) =
     [Trader_on_update, Trade_on_update] @ Orders_on_margins_update # [Position_on_update] \<and>
   position_hook_violates Trader_on_update = Returns_coroutine \<and>
   position_hook_violates Trade_on_update = Returns_None \<and>
   position_hook_violates Orders_on_margins_update = Returns_other \<and>
   emit_event position_hook_violates Trader_on_update fresh_market =
     Done (fresh_market\<lparr>called := called fresh_market @ [Trader_on_update],
                        tasks := tasks fresh_market @ [Callback_coroutine Trader_on_update]\<rparr>) \<and>
   emit_event position_hook_violates Trade_on_update fresh_market =
     Done (fresh_market\<lparr>called := called fresh_market @ [Trade_on_update]\<rparr>) \<and>
   emit_event position_hook_violates Orders_on_margins_update fresh_market =
     Failed TypeError (fresh_market\<lparr>called := called fresh_market @ [Orders_on_margins_update]\<rparr>) \<and>
   handle_message position_hook_violates balance_envelope fresh_market =
     Failed TypeError
       ((handle_trader_balance_msg blank_msg fresh_market)
          \<lparr>called := [Trader_on_update, Trade_on_update, Orders_on_margins_update],
           tasks := [Callback_coroutine Trader_on_update]\<rparr>)"
proof -
  let ?s1 = "handle_trader_balance_msg blank_msg fresh_market"
  have d: "dispatch balance_envelope fresh_market = Done ?s1"
    by (simp add: dispatch_def balance_envelope_def)
  have p: "scheduled_events ?s1 =
     [Trader_on_update, Trade_on_update] @ Orders_on_margins_update # [Position_on_update]"
    by code_simp
  have c: "position_hook_violates Trader_on_update = Returns_coroutine"
    "position_hook_violates Trade_on_update = Returns_None"
    "position_hook_violates Orders_on_margins_update = Returns_other"
    by code_simp+
  have z: "called ?s1 = []" "tasks ?s1 = []" by code_simp+
  note A = emit_event_return_shapes
    [of position_hook_violates Trader_on_update fresh_market balance_envelope ?s1
        "[Trader_on_update, Trade_on_update]" "[Position_on_update]"]
  note B = emit_event_return_shapes
    [of position_hook_violates Trade_on_update fresh_market balance_envelope ?s1
        "[Trader_on_update, Trade_on_update]" "[Position_on_update]"]
  note C = emit_event_return_shapes
    [of position_hook_violates Orders_on_margins_update fresh_market balance_envelope ?s1
        "[Trader_on_update, Trade_on_update]" "[Position_on_update]"]
  show ?thesis using A B C d p c z by simp
qed


subsection \<open>Coalescing of notifications\<close>

text \<open>
  Claim C5. Scheduling a callback that is already pending changes nothing, and a pending
  list without duplicates stays so and holds the scheduled callback exactly once. When the
  dispatch of a message returns and no pending callback returns an unsupported value,
  \<^verbatim>\<open>handle_message\<close> calls the pending callbacks, each once and in order, and clears the
  list. A trader-status message whose embedded orders have well-formed ids calls the
  trader's \<^verbatim>\<open>on_update\<close> exactly once.
\<close>

theorem pending_events_fire_once:
  "schedule_event ev (schedule_event ev s) = schedule_event ev s \<and>
   (distinct (scheduled_events s) \<longrightarrow>
      distinct (scheduled_events (schedule_event ev s)) \<and>
      count_list (scheduled_events (schedule_event ev s)) ev = 1) \<and>
   (distinct (scheduled_events s) \<and> dispatch message s = Done s1 \<and>
    (\<forall>e \<in> set (scheduled_events s1). cb e \<noteq> Returns_other) \<longrightarrow>
      distinct (scheduled_events s1) \<and>
      (\<exists>s2. handle_message cb message s = Done s2 \<and>
            called s2 = called s @ scheduled_events s1 \<and> scheduled_events s2 = [])) \<and>
   (distinct (scheduled_events s) \<and> kontent message = trader_status_msg m \<and>
    (\<forall>om \<in> set (orders m). length (orig_client_id om) = 16) \<and>
    (\<forall>e. cb e \<noteq> Returns_other) \<longrightarrow>
      (\<exists>s2. handle_message cb message s = Done s2 \<and>
            count_list (called s2) Trader_on_update =
              count_list (called s) Trader_on_update + 1 \<and>
            scheduled_events s2 = []))"
proof (intro conjI impI)
  show "schedule_event ev (schedule_event ev s) = schedule_event ev s"
    by (simp add: schedule_event_def)
next
  assume "distinct (scheduled_events s)"
  then show "distinct (scheduled_events (schedule_event ev s))"
    by (rule schedule_event_pending(2))
next
  assume "distinct (scheduled_events s)"
  then have "distinct (scheduled_events (schedule_event ev s))"
    by (rule schedule_event_pending(2))
  moreover have "ev \<in> set (scheduled_events (schedule_event ev s))"
    by (simp add: schedule_event_pending(1))
  ultimately show "count_list (scheduled_events (schedule_event ev s)) ev = 1"
    by (rule count_list_distinct)
next
  assume a: "distinct (scheduled_events s) \<and> dispatch message s = Done s1 \<and>
    (\<forall>e \<in> set (scheduled_events s1). cb e \<noteq> Returns_other)"
  show "distinct (scheduled_events s1)" using a dispatch_pending [of message s] by simp
next
  assume a: "distinct (scheduled_events s) \<and> dispatch message s = Done s1 \<and>
    (\<forall>e \<in> set (scheduled_events s1). cb e \<noteq> Returns_other)"
  then show "\<exists>s2. handle_message cb message s = Done s2 \<and>
            called s2 = called s @ scheduled_events s1 \<and> scheduled_events s2 = []"
    using handle_message_conforming [of message s s1 cb] by blast
next
  assume a: "distinct (scheduled_events s) \<and> kontent message = trader_status_msg m \<and>
    (\<forall>om \<in> set (orders m). length (orig_client_id om) = 16) \<and>
    (\<forall>e. cb e \<noteq> Returns_other)"
  let ?s0 = "handle_leverage m (handle_position m (handle_order_margin m
     (handle_last_trade m (handle_mark_price m (handle_balance m s)))))"
  have d0: "dispatch message s = handle_orders None None (orders m) ?s0"
    using a by (simp add: dispatch_def handle_trader_status_msg_def)
  obtain s1 where s1: "handle_orders None None (orders m) ?s0 = Done s1"
    using handle_orders_Done [of "orders m" None None ?s0] a by blast
  have d: "dispatch message s = Done s1" using d0 s1 by simp
  have b: "Trader_on_update \<in> set (scheduled_events (handle_balance m s))"
    by (simp add: handle_balance_def schedule_event_pending(1))
  have "Trader_on_update \<in> set (scheduled_events ?s0)"
    by (rule field_handlers_keep_pending(6), rule field_handlers_keep_pending(5),
        rule field_handlers_keep_pending(4), rule field_handlers_keep_pending(3),
        rule field_handlers_keep_pending(2), rule b)
  then have t: "Trader_on_update \<in> set (scheduled_events s1)"
    by (rule handle_orders_keep_pending [OF s1])
  have dist: "distinct (scheduled_events s1)"
    using a d dispatch_pending [of message s] by simp
  obtain s2 where s2: "handle_message cb message s = Done s2"
    "called s2 = called s @ scheduled_events s1" "scheduled_events s2 = []"
    using handle_message_conforming [OF d, of cb] a by blast
  have "count_list (called s2) Trader_on_update = count_list (called s) Trader_on_update + 1"
    using s2(2) count_list_distinct [OF dist t] by simp
  then show "\<exists>s2. handle_message cb message s = Done s2 \<and>
            count_list (called s2) Trader_on_update =
              count_list (called s) Trader_on_update + 1 \<and>
            scheduled_events s2 = []"
    using s2 by blast
qed

theorem pending_events_fire_once_witness:
  "distinct (scheduled_events fresh_market) \<and>
   count_list (scheduled_events (schedule_event Trader_on_update fresh_market))
     Trader_on_update = 1 \<and>
   kontent status_envelope = trader_status_msg status_report \<and>
   msg.leverage status_report = 5 \<and>
   orders status_report = [accepted_report] \<and>
   length (orig_client_id accepted_report) = 16 \<and>
   dispatch status_envelope fresh_market =
     Done (final (handle_trader_status_msg status_report fresh_market)) \<and>
   scheduled_events (final (handle_trader_status_msg status_report fresh_market)) =
     [Trader_on_update, CurrencyPair_on_update 0, Trade_on_update, Orders_on_margins_update,
      Position_on_update, Order_on_update 0] \<and>
   (\<exists>s2. handle_message (\<lambda>ev. Returns_None) status_envelope fresh_market = Done s2 \<and>
         called s2 = [Trader_on_update, CurrencyPair_on_update 0, Trade_on_update,
                      Orders_on_margins_update, Position_on_update, Order_on_update 0] \<and>
         count_list (called s2) Trader_on_update = 1 \<and>
         scheduled_events s2 = [])"
proof -
  let ?cb = "\<lambda>ev::event. Returns_None"
  let ?s1 = "final (handle_trader_status_msg status_report fresh_market)"
  have f1: "distinct (scheduled_events fresh_market)" by code_simp
  have f2: "called fresh_market = []" by code_simp
  have f3: "kontent status_envelope = trader_status_msg status_report" by code_simp
  have f4: "msg.leverage status_report = 5" by code_simp
  have f5: "orders status_report = [accepted_report]" by code_simp
  have f6: "length (orig_client_id accepted_report) = 16" by code_simp
  have p: "scheduled_events ?s1 =
     [Trader_on_update, CurrencyPair_on_update 0, Trade_on_update, Orders_on_margins_update,
      Position_on_update, Order_on_update 0]"
    by code_simp
  have ids: "\<forall>om \<in> set (orders status_report). length (orig_client_id om) = 16"
    using f5 f6 by simp
  obtain s1 where s1: "handle_orders None None (orders status_report)
     (handle_leverage status_report (handle_position status_report
       (handle_order_margin status_report (handle_last_trade status_report
         (handle_mark_price status_report (handle_balance status_report fresh_market))))))
     = Done s1"
    using handle_orders_Done [OF ids, of None None] by blast
  have d: "dispatch status_envelope fresh_market = Done ?s1"
    using f3 s1 by (simp add: dispatch_def handle_trader_status_msg_def)
  note T = pending_events_fire_once
    [of Trader_on_update fresh_market status_envelope ?s1 ?cb status_report]
  have c1: "count_list (scheduled_events (schedule_event Trader_on_update fresh_market))
     Trader_on_update = 1"
    using T f1 by blast
  have "\<exists>s2. handle_message ?cb status_envelope fresh_market = Done s2 \<and>
            called s2 = called fresh_market @ scheduled_events ?s1 \<and> scheduled_events s2 = []"
    using T f1 d by blast
  then obtain s2 where s2: "handle_message ?cb status_envelope fresh_market = Done s2"
    "called s2 = called fresh_market @ scheduled_events ?s1" "scheduled_events s2 = []"
    by blast
  have c2: "called s2 = [Trader_on_update, CurrencyPair_on_update 0, Trade_on_update,
                      Orders_on_margins_update, Position_on_update, Order_on_update 0]"
    using s2(2) f2 p by simp
  have c3: "count_list (called s2) Trader_on_update = 1"
    unfolding c2 by simp
  have ex: "\<exists>s2. handle_message ?cb status_envelope fresh_market = Done s2 \<and>
         called s2 = [Trader_on_update, CurrencyPair_on_update 0, Trade_on_update,
                      Orders_on_margins_update, Position_on_update, Order_on_update 0] \<and>
         count_list (called s2) Trader_on_update = 1 \<and>
         scheduled_events s2 = []"
    using s2(1,3) c2 c3 by blast
  show ?thesis
    using f1 c1 f3 f4 f5 f6 d p ex by (intro conjI)
qed

subsection \<open>What the flush and the status handler leave alone\<close>

lemma emit_events_final_frame:
  "order_objs (final (emit_events cb evs s)) = order_objs s \<and>
   next_ref (final (emit_events cb evs s)) = next_ref s \<and>
   trader_orders (final (emit_events cb evs s)) = trader_orders s \<and>
   order_book (final (emit_events cb evs s)) = order_book s \<and>
   last_trade (final (emit_events cb evs s)) = last_trade s \<and>
   filter is_order_book_request (tasks (final (emit_events cb evs s))) =
     filter is_order_book_request (tasks s)"
proof (induction evs arbitrary: s)
  case Nil
  then show ?case by simp
next
  case (Cons ev evs)
  show ?case
  proof (cases "cb ev")
    case Returns_None
    then show ?thesis using Cons [of "s\<lparr>called := called s @ [ev]\<rparr>"]
      by (simp add: emit_event_def)
  next
    case Returns_coroutine
    then show ?thesis
      using Cons [of "s\<lparr>called := called s @ [ev], tasks := tasks s @ [Callback_coroutine ev]\<rparr>"]
      by (simp add: emit_event_def)
  next
    case Returns_other
    then show ?thesis by (simp add: emit_event_def)
  qed
qed

lemma handle_message_final_frame:
  "order_objs (final (handle_message cb message s)) = order_objs (final (dispatch message s)) \<and>
   next_ref (final (handle_message cb message s)) = next_ref (final (dispatch message s)) \<and>
   trader_orders (final (handle_message cb message s)) =
     trader_orders (final (dispatch message s)) \<and>
   order_book (final (handle_message cb message s)) = order_book (final (dispatch message s)) \<and>
   last_trade (final (handle_message cb message s)) = last_trade (final (dispatch message s)) \<and>
   filter is_order_book_request (tasks (final (handle_message cb message s))) =
     filter is_order_book_request (tasks (final (dispatch message s)))"
proof (cases "dispatch message s")
  case (Failed e s')
  then show ?thesis by (simp add: handle_message_def)
next
  case (Done s1)
  show ?thesis
  proof (cases "emit_events cb (scheduled_events s1) s1")
    case (Failed e s')
    then show ?thesis
      using Done emit_events_final_frame [of cb "scheduled_events s1" s1]
      by (simp add: handle_message_def)
  next
    case (Done s2)
    then show ?thesis
      using \<open>dispatch message s = Done s1\<close> emit_events_final_frame [of cb "scheduled_events s1" s1]
      by (simp add: handle_message_def)
  qed
qed

lemma handle_order_quantity:
  assumes h: "handle_order m outer forced s = Inr (r, seen, s')" and q: "q < next_ref s"
  shows "Order.quantity (order_objs s' q) = Order.quantity (order_objs s q)"
proof -
  from h obtain i where i: "resolve_id m outer = Inr i" by (rule handle_order_resolves)
  show ?thesis
  proof (cases "by_id (trader_orders s) i")
    case None
    from h handle_order_unknown [OF i None, of forced]
    have s': "s' = update_membership False (next_ref s)
            (attach_error_code outer (next_ref s)
               (determine_status m forced False (next_ref s)
                  (snd (new_order (create_order_from_message m i) s))))" by auto
    show ?thesis using q
      by (simp add: s' update_membership_frame attach_error_code_frame determine_status_frame
          new_order_def)
  next
    case (Some r0)
    from h handle_order_known [OF i Some, of forced]
    have s': "s' = update_membership True r0
            (attach_error_code outer r0 (determine_status m forced True r0 s))" by auto
    show ?thesis
      by (simp add: s' update_membership_frame attach_error_code_frame determine_status_frame)
  qed
qed

lemma handle_order_status_msg_quantity:
  assumes q: "q < next_ref s"
  shows "Order.quantity (order_objs (final (handle_order_status_msg m outer s)) q) =
     Order.quantity (order_objs s q)"
proof -
  define s1 where "s1 = (if envelope.error_code outer = 0
                then handle_order_margin m (handle_position m (handle_balance m s))
                else s)"
  have s1: "order_objs s1 = order_objs s" "next_ref s1 = next_ref s"
    by (simp_all add: s1_def)
  show ?thesis
  proof (cases "handle_order m (Some outer) None s1")
    case (Inl e)
    then show ?thesis using s1 by (simp add: handle_order_status_msg_def s1_def [symmetric])
  next
    case (Inr res)
    obtain r seen s2 where res: "res = (r, seen, s2)" by (cases res) auto
    have h: "handle_order m (Some outer) None s1 = Inr (r, seen, s2)" using Inr res by simp
    have "Order.quantity (order_objs s2 q) = Order.quantity (order_objs s1 q)"
      using handle_order_quantity [OF h] q s1 by simp
    then show ?thesis using h s1
      by (simp add: handle_order_status_msg_def s1_def [symmetric])
  qed
qed

lemma handle_last_trade_twice:
  "handle_last_trade m (handle_last_trade m s) = handle_last_trade m s"
  by (simp add: handle_last_trade_def schedule_event_def)

lemma handle_last_trade_fields [simp]:
  "last_trade (handle_last_trade m s) =
     Some \<lparr>Trade.price = last_trade_price m, Trade.quantity = last_trade_quantity m,
           Trade.time = last_trade_timestamp m\<rparr>"
  "order_book (handle_last_trade m s) = order_book s"
  "tasks (handle_last_trade m s) = tasks s"
  "scheduled_events (handle_last_trade m s) = scheduled_events (schedule_event Trade_on_update s)"
  by (simp_all add: handle_last_trade_def schedule_event_def)


subsection \<open>Order-filled messages\<close>

text \<open>
  Claim C1. The claim says that an order-filled message for a known order moves the
  order's quantity to original quantity minus remaining quantity minus dropped quantity
  (5 for an order of 10 and a report of 10, 4 and 1). The code does not:
  \<^verbatim>\<open>handle_message\<close> sends \<^verbatim>\<open>order_filled_msg\<close> to \<^verbatim>\<open>handle_order_status_msg\<close>, which
  never assigns a quantity, so that every order that existed keeps its quantity, whatever
  the message and whatever the callbacks return. The handler written for fills,
  \<^verbatim>\<open>handle_order_filled_message\<close>, is called from nowhere; whenever its reconciliation
  succeeds it leaves the order with original quantity minus remaining quantity minus
  dropped quantity.
\<close>

theorem order_filled_msg_leaves_quantity:
  "(kontent message = order_filled_msg m \<and> q < next_ref s \<longrightarrow>
      Order.quantity (order_objs (final (handle_message cb message s)) q) =
        Order.quantity (order_objs s q)) \<and>
   (handle_order m (Some message) None
      (handle_order_margin m (handle_balance m (handle_position m s))) = Inr (r, seen, s2) \<longrightarrow>
      (\<exists>s'. handle_order_filled_message m message s = Done s' \<and>
            Order.quantity (order_objs s' r) =
              orig_quantity m - order_msg.quantity m - dropped_quantity m))"
proof (intro conjI impI)
  assume a: "kontent message = order_filled_msg m \<and> q < next_ref s"
  then have "dispatch message s = handle_order_status_msg m message s"
    by (simp add: dispatch_def)
  then show "Order.quantity (order_objs (final (handle_message cb message s)) q) =
        Order.quantity (order_objs s q)"
    using handle_message_final_frame [of cb message s]
      handle_order_status_msg_quantity [of q s m message] a by simp
next
  assume "handle_order m (Some message) None
      (handle_order_margin m (handle_balance m (handle_position m s))) = Inr (r, seen, s2)"
  then show "\<exists>s'. handle_order_filled_message m message s = Done s' \<and>
            Order.quantity (order_objs s' r) =
              orig_quantity m - order_msg.quantity m - dropped_quantity m"
    by (simp add: handle_order_filled_message_def set_quantity_def)
qed

text \<open>
  The input of the claim: the order keeps quantity 10 through \<^verbatim>\<open>handle_message\<close>, and
  \<^verbatim>\<open>handle_order_filled_message\<close> would have left it at 5.
\<close>

theorem order_filled_msg_leaves_quantity_witness:
  "kontent fill_envelope = order_filled_msg fill_report \<and>
   0 < next_ref known_market \<and>
   Order.quantity (order_objs known_market 0) = 10 \<and>
   orig_quantity fill_report = 10 \<and> order_msg.quantity fill_report = 4 \<and>
   dropped_quantity fill_report = 1 \<and>
   Order.quantity
     (order_objs (final (handle_message (\<lambda>ev. Returns_None) fill_envelope known_market)) 0) = 10 \<and>
   called (final (handle_message (\<lambda>ev. Returns_None) fill_envelope known_market)) =
     [Trader_on_update, Position_on_update, Orders_on_margins_update, Order_on_update 0] \<and>
   Order.quantity
     (order_objs (final (handle_order_filled_message fill_report fill_envelope known_market)) 0) = 5"
proof -
  have f: "kontent fill_envelope = order_filled_msg fill_report"
    "0 < next_ref known_market"
    "Order.quantity (order_objs known_market 0) = 10"
    "orig_quantity fill_report = 10" "order_msg.quantity fill_report = 4"
    "dropped_quantity fill_report = 1"
    by code_simp+
  have c: "called (final (handle_message (\<lambda>ev. Returns_None) fill_envelope known_market)) =
     [Trader_on_update, Position_on_update, Orders_on_margins_update, Order_on_update 0]"
    by code_simp
  have g: "Order.quantity
     (order_objs (final (handle_order_filled_message fill_report fill_envelope known_market)) 0) = 5"
    by code_simp
  show ?thesis
    using order_filled_msg_leaves_quantity
      [of fill_envelope fill_report 0 known_market "\<lambda>ev. Returns_None"] f c g
    by simp
qed



subsection \<open>An incremental update before the snapshot\<close>

text \<open>
  Claim C4. When an incremental order-book update arrives while the bids are \<^verbatim>\<open>None\<close>,
  in a market attached to its bot, the handler returns, leaves both sides of the book as
  they are and creates exactly one task, the snapshot request for this market. The state
  it leaves does not depend on the bid and ask updates of the message: nothing of the diff
  is kept. Through \<^verbatim>\<open>handle_message\<close>, whatever the callbacks return, the book is still
  unchanged and the snapshot requests among the tasks grew by exactly that one.
\<close>

theorem update_before_snapshot_requests_snapshot:
  "(OrderBook.bids (order_book s) = None \<and> bot s = Some b \<longrightarrow>
      (\<exists>s'. handle_order_book_updated_msg m s = Done s' \<and>
            order_book s' = order_book s \<and>
            tasks s' = tasks s @ [Order_book_request (market_id s)] \<and>
            handle_order_book_updated_msg (m\<lparr>bid_updates := us, ask_updates := vs\<rparr>) s =
              Done s')) \<and>
   (OrderBook.bids (order_book s) = None \<and> bot s = Some b \<and>
    kontent message = order_book_updated_msg m \<longrightarrow>
      order_book (final (handle_message cb message s)) = order_book s \<and>
      filter is_order_book_request (tasks (final (handle_message cb message s))) =
        filter is_order_book_request (tasks s) @ [Order_book_request (market_id s)])"
proof (intro conjI impI)
  assume a: "OrderBook.bids (order_book s) = None \<and> bot s = Some b"
  then show "\<exists>s'. handle_order_book_updated_msg m s = Done s' \<and>
            order_book s' = order_book s \<and>
            tasks s' = tasks s @ [Order_book_request (market_id s)] \<and>
            handle_order_book_updated_msg (m\<lparr>bid_updates := us, ask_updates := vs\<rparr>) s =
              Done s'"
    by (simp add: handle_order_book_updated_msg_def handle_last_trade_def schedule_event_def)
next
  assume a: "OrderBook.bids (order_book s) = None \<and> bot s = Some b \<and>
    kontent message = order_book_updated_msg m"
  then have d: "dispatch message s =
      Done (handle_last_trade m (handle_last_trade m
              (s\<lparr>tasks := tasks s @ [Order_book_request (market_id s)]\<rparr>)))"
    by (simp add: dispatch_def handle_order_book_updated_msg_def)
  show "order_book (final (handle_message cb message s)) = order_book s"
    using handle_message_final_frame [of cb message s] d by simp
  show "filter is_order_book_request (tasks (final (handle_message cb message s))) =
        filter is_order_book_request (tasks s) @ [Order_book_request (market_id s)]"
    using handle_message_final_frame [of cb message s] d by simp
qed

theorem update_before_snapshot_requests_snapshot_witness:
  "OrderBook.bids (order_book attached_market) = None \<and>
   bot attached_market = Some \<lparr>currency_pairs = Map.empty\<rparr> \<and>
   kontent book_update_envelope = order_book_updated_msg book_update \<and>
   bid_updates book_update = [\<lparr>OrderBookEntry.price = 99, OrderBookEntry.quantity = 3\<rparr>] \<and>
   (\<exists>s'. handle_order_book_updated_msg book_update attached_market = Done s' \<and>
         order_book s' = \<lparr>OrderBook.bids = None, OrderBook.asks = None\<rparr> \<and>
         tasks s' = [Order_book_request 1] \<and>
         handle_order_book_updated_msg (book_update\<lparr>bid_updates := [], ask_updates := []\<rparr>)
           attached_market = Done s') \<and>
   order_book (final (handle_message (\<lambda>ev. Returns_coroutine) book_update_envelope
     attached_market)) = \<lparr>OrderBook.bids = None, OrderBook.asks = None\<rparr> \<and>
   tasks (final (handle_message (\<lambda>ev. Returns_coroutine) book_update_envelope attached_market))
     = [Order_book_request 1, Callback_coroutine Trade_on_update]"
proof -
  have f: "OrderBook.bids (order_book attached_market) = None"
    "kontent book_update_envelope = order_book_updated_msg book_update"
    "bid_updates book_update = [\<lparr>OrderBookEntry.price = 99, OrderBookEntry.quantity = 3\<rparr>]"
    "tasks attached_market = []" "market_id attached_market = 1"
    by code_simp+
  have ob: "order_book attached_market = \<lparr>OrderBook.bids = None, OrderBook.asks = None\<rparr>"
    by (simp add: attached_market_def fresh_market_def Market_init_def)
  have b: "bot attached_market = Some \<lparr>currency_pairs = Map.empty\<rparr>"
    by (simp add: attached_market_def)
  have t: "tasks (final (handle_message (\<lambda>ev. Returns_coroutine) book_update_envelope
     attached_market)) = [Order_book_request 1, Callback_coroutine Trade_on_update]"
    by code_simp
  note T = update_before_snapshot_requests_snapshot
    [of attached_market "\<lparr>currency_pairs = Map.empty\<rparr>" book_update "[]" "[]"
        book_update_envelope "\<lambda>ev. Returns_coroutine"]
  show ?thesis using T f b t ob by simp
qed


text \<open>
  Claim C10. In the same situation the last trade is overwritten from the message by two
  identical calls of \<^verbatim>\<open>handle_last_trade\<close>, of which the second changes nothing; the
  last trade's \<^verbatim>\<open>on_update\<close> is scheduled and the order book's is not (the pending list
  grows by the last trade's callback at most). When both sides of the book exist, the
  handler returns with both callbacks pending and the last trade overwritten.
\<close>

theorem update_refreshes_last_trade:
  "(OrderBook.bids (order_book s) = None \<and> bot s = Some b \<longrightarrow>
      (\<exists>s'. handle_order_book_updated_msg m s = Done s' \<and>
            s' = handle_last_trade m (handle_last_trade m
                   (s\<lparr>tasks := tasks s @ [Order_book_request (market_id s)]\<rparr>)) \<and>
            s' = handle_last_trade m
                   (s\<lparr>tasks := tasks s @ [Order_book_request (market_id s)]\<rparr>) \<and>
            last_trade s' =
              Some \<lparr>Trade.price = last_trade_price m, Trade.quantity = last_trade_quantity m,
                    Trade.time = last_trade_timestamp m\<rparr> \<and>
            scheduled_events s' = scheduled_events (schedule_event Trade_on_update s) \<and>
            Trade_on_update \<in> set (scheduled_events s') \<and>
            (OrderBook_on_update \<in> set (scheduled_events s') \<longleftrightarrow>
               OrderBook_on_update \<in> set (scheduled_events s)))) \<and>
   (OrderBook.bids (order_book s) = Some bs \<and> OrderBook.asks (order_book s) = Some as \<longrightarrow>
      (\<exists>s'. handle_order_book_updated_msg m s = Done s' \<and>
            last_trade s' =
              Some \<lparr>Trade.price = last_trade_price m, Trade.quantity = last_trade_quantity m,
                    Trade.time = last_trade_timestamp m\<rparr> \<and>
            Trade_on_update \<in> set (scheduled_events s') \<and>
            OrderBook_on_update \<in> set (scheduled_events s')))"
proof (intro conjI impI)
  assume a: "OrderBook.bids (order_book s) = None \<and> bot s = Some b"
  let ?s0 = "s\<lparr>tasks := tasks s @ [Order_book_request (market_id s)]\<rparr>"
  have d: "handle_order_book_updated_msg m s =
      Done (handle_last_trade m (handle_last_trade m ?s0))"
    using a by (simp add: handle_order_book_updated_msg_def)
  have p: "scheduled_events (handle_last_trade m ?s0) =
      scheduled_events (schedule_event Trade_on_update s)"
    by (simp add: schedule_event_def)
  show "\<exists>s'. handle_order_book_updated_msg m s = Done s' \<and>
            s' = handle_last_trade m (handle_last_trade m ?s0) \<and>
            s' = handle_last_trade m ?s0 \<and>
            last_trade s' =
              Some \<lparr>Trade.price = last_trade_price m, Trade.quantity = last_trade_quantity m,
                    Trade.time = last_trade_timestamp m\<rparr> \<and>
            scheduled_events s' = scheduled_events (schedule_event Trade_on_update s) \<and>
            Trade_on_update \<in> set (scheduled_events s') \<and>
            (OrderBook_on_update \<in> set (scheduled_events s') \<longleftrightarrow>
               OrderBook_on_update \<in> set (scheduled_events s))"
    using d p by (simp add: handle_last_trade_twice schedule_event_pending(1))
next
  assume a: "OrderBook.bids (order_book s) = Some bs \<and> OrderBook.asks (order_book s) = Some as"
  then show "\<exists>s'. handle_order_book_updated_msg m s = Done s' \<and>
            last_trade s' =
              Some \<lparr>Trade.price = last_trade_price m, Trade.quantity = last_trade_quantity m,
                    Trade.time = last_trade_timestamp m\<rparr> \<and>
            Trade_on_update \<in> set (scheduled_events s') \<and>
            OrderBook_on_update \<in> set (scheduled_events s')"
    by (simp add: handle_order_book_updated_msg_def populate_side_def
        schedule_event_pending(1))
qed

theorem update_refreshes_last_trade_witness:
  "OrderBook.bids (order_book attached_market) = None \<and>
   bot attached_market = Some \<lparr>currency_pairs = Map.empty\<rparr> \<and>
   scheduled_events attached_market = [] \<and>
   OrderBook.bids (order_book snapshot_market) = Some Map.empty \<and>
   OrderBook.asks (order_book snapshot_market) = Some Map.empty \<and>
   (\<exists>s'. handle_order_book_updated_msg book_update attached_market = Done s' \<and>
         last_trade s' = Some \<lparr>Trade.price = 100, Trade.quantity = 7, Trade.time = 42\<rparr> \<and>
         scheduled_events s' = [Trade_on_update]) \<and>
   (\<exists>s'. handle_order_book_updated_msg book_update snapshot_market = Done s' \<and>
         last_trade s' = Some \<lparr>Trade.price = 100, Trade.quantity = 7, Trade.time = 42\<rparr> \<and>
         Trade_on_update \<in> set (scheduled_events s') \<and>
         OrderBook_on_update \<in> set (scheduled_events s')) \<and>
   scheduled_events (final (handle_order_book_updated_msg book_update snapshot_market)) =
     [OrderBook_on_update, Trade_on_update]"
proof -
  have f: "OrderBook.bids (order_book attached_market) = None"
    "scheduled_events attached_market = []"
    "last_trade_price book_update = 100" "last_trade_quantity book_update = 7"
    "last_trade_timestamp book_update = 42"
    "scheduled_events (schedule_event Trade_on_update attached_market) = [Trade_on_update]"
    "scheduled_events (final (handle_order_book_updated_msg book_update snapshot_market)) =
     [OrderBook_on_update, Trade_on_update]"
    by code_simp+
  have b: "bot attached_market = Some \<lparr>currency_pairs = Map.empty\<rparr>"
    by (simp add: attached_market_def)
  have k: "OrderBook.bids (order_book snapshot_market) = Some Map.empty"
    "OrderBook.asks (order_book snapshot_market) = Some Map.empty"
    by (simp_all add: snapshot_market_def)
  note A = update_refreshes_last_trade
    [of attached_market "\<lparr>currency_pairs = Map.empty\<rparr>" book_update Map.empty Map.empty]
  note B = update_refreshes_last_trade
    [of snapshot_market "\<lparr>currency_pairs = Map.empty\<rparr>" book_update Map.empty Map.empty]
  from A f(1) b obtain s1 where s1:
    "handle_order_book_updated_msg book_update attached_market = Done s1"
    "last_trade s1 =
       Some \<lparr>Trade.price = last_trade_price book_update,
             Trade.quantity = last_trade_quantity book_update,
             Trade.time = last_trade_timestamp book_update\<rparr>"
    "scheduled_events s1 = scheduled_events (schedule_event Trade_on_update attached_market)"
    by blast
  have A': "\<exists>s'. handle_order_book_updated_msg book_update attached_market = Done s' \<and>
         last_trade s' = Some \<lparr>Trade.price = 100, Trade.quantity = 7, Trade.time = 42\<rparr> \<and>
         scheduled_events s' = [Trade_on_update]"
    using s1 f(3,4,5,6) by (intro exI [of _ s1]) simp
  from B k obtain s2 where s2:
    "handle_order_book_updated_msg book_update snapshot_market = Done s2"
    "last_trade s2 =
       Some \<lparr>Trade.price = last_trade_price book_update,
             Trade.quantity = last_trade_quantity book_update,
             Trade.time = last_trade_timestamp book_update\<rparr>"
    "Trade_on_update \<in> set (scheduled_events s2)"
    "OrderBook_on_update \<in> set (scheduled_events s2)"
    by blast
  have B': "\<exists>s'. handle_order_book_updated_msg book_update snapshot_market = Done s' \<and>
         last_trade s' = Some \<lparr>Trade.price = 100, Trade.quantity = 7, Trade.time = 42\<rparr> \<and>
         Trade_on_update \<in> set (scheduled_events s') \<and>
         OrderBook_on_update \<in> set (scheduled_events s')"
    using s2 f(3,4,5) by (intro exI [of _ s2]) simp
  show ?thesis using A' B' f b k by (intro conjI)
qed

end
